theory Spec2Isabelle
  imports Complex_Main "HOL-Library.Sublist"
begin

text \<open>
  A model of \<open>final_clean.py\<close>, the cleaning pipeline for a constituent export:
  the schema normalizer (\<open>clean_and_prepare_data\<close>, \<open>UM_donor\<close>, \<open>replace\<close>), the
  affiliation expander (\<open>create_affiliation_columns\<close>), the selection of rows to geocode
  (\<open>collect_addresses_to_geocode\<close>), the de-duplication after the interest merge
  (\<open>merged_df_edits\<close>) and the missing-value filler (\<open>fill_missing_values\<close>).
  Tables are pandas data frames; what the functions use of pandas and of Python's strings
  is modelled first, then the functions, then what is proved of them.
\<close>

section \<open>Cell values\<close>

text \<open>
  A pandas cell holds a Python object. The pipeline meets the values a spreadsheet or CSV
  reader produces (missing values, text, integers, floats, booleans, timestamps) and the
  token lists that the affiliation step stores in its \<open>Affiliation List\<close> column.

  A Python float is modelled by its exact decimal value: rounding to binary64 is not part
  of the model. The infinities and the not-a-number value are separate constructors,
  because \<open>float\<close> parses them and \<open>pd.isna\<close> tests for the latter.
\<close>

datatype pyfloat = Fin rat | PInf | NInf | NaN

datatype val =
    NoneV
  | NaT
  | Str string
  | IntV int
  | FloatV pyfloat
  | BoolV bool
  | Timestamp int
  | ListV "string list"

datatype error =
    KeyError "string list"
  | ValueError
  | AttributeError
  | TypeError

text \<open>\<open>pd.isna\<close> / \<open>pd.isnull\<close> / \<open>pd.notna\<close> on a scalar.\<close>

fun isna :: "val \<Rightarrow> bool" where
  "isna NoneV = True"
| "isna NaT = True"
| "isna (FloatV NaN) = True"
| "isna _ = False"

text \<open>
  \<open>pd.isna(x)\<close> used as a condition. On a list pandas answers with an array of booleans,
  one per element; the truth value of an array of two or more elements raises
  \<open>ValueError\<close>, that of an empty array is false, and a one-element array has the truth
  value of its element (a token, which is never missing).
\<close>

fun isna_cond :: "val \<Rightarrow> error + bool" where
  "isna_cond (ListV xs) = (if 2 \<le> length xs then Inl ValueError else Inr False)"
| "isna_cond v = Inr (isna v)"


section \<open>Python string operations\<close>

text \<open>Strings are ASCII: one \<open>char\<close> per character.\<close>

definition newline :: char where
  "newline = CHR 0x0A"

text \<open>\<open>s.replace(old, new)\<close> for single characters.\<close>

definition replace_char :: "char \<Rightarrow> char \<Rightarrow> string \<Rightarrow> string" where
  "replace_char old new s = map (\<lambda>c. if c = old then new else c) s"

text \<open>\<open>s.replace(old, '')\<close> for a single character.\<close>

definition remove_char :: "char \<Rightarrow> string \<Rightarrow> string" where
  "remove_char old s = filter (\<lambda>c. c \<noteq> old) s"

text \<open>
  \<open>s.split(sep)\<close> for a single-character separator: every occurrence of the separator
  ends a field, empty fields are kept, and the empty string gives one empty field.
\<close>

fun split_on :: "char \<Rightarrow> string \<Rightarrow> string list" where
  "split_on sep [] = [[]]"
| "split_on sep (c # cs) =
     (if c = sep then [] # split_on sep cs
      else (case split_on sep cs of
              [] \<Rightarrow> [[c]]
            | w # ws \<Rightarrow> (c # w) # ws))"



section \<open>The builtin \<open>float\<close> on strings\<close>

text \<open>
  \<open>float(s)\<close> strips surrounding whitespace and accepts an optional sign followed by
  \<open>inf\<close>, \<open>infinity\<close> or \<open>nan\<close> in any letter case, or by a decimal number: digits
  with an optional point (digits on at least one side of it) and an optional exponent.
  Single underscores may separate digits. Anything else raises \<open>ValueError\<close>, which is
  \<open>None\<close> here.
\<close>

definition is_digit :: "char \<Rightarrow> bool" where
  "is_digit c = (c \<in> set ''0123456789'')"

definition digit_val :: "char \<Rightarrow> nat" where
  "digit_val c = of_char c - of_char CHR ''0''"

fun digitpart_tail :: "string \<Rightarrow> bool" where
  "digitpart_tail [] = True"
| "digitpart_tail [c] = is_digit c"
| "digitpart_tail (c # d # cs) =
     (if c = CHR ''_'' then is_digit d \<and> digitpart_tail (d # cs)
      else is_digit c \<and> digitpart_tail (d # cs))"

text \<open>A digit, then digits each optionally preceded by one underscore.\<close>

fun is_digitpart :: "string \<Rightarrow> bool" where
  "is_digitpart [] = False"
| "is_digitpart (c # cs) = (is_digit c \<and> digitpart_tail cs)"

definition digits_of :: "string \<Rightarrow> string" where
  "digits_of s = filter is_digit s"

definition digits_val :: "string \<Rightarrow> nat" where
  "digits_val s = foldl (\<lambda>a c. 10 * a + digit_val c) 0 (digits_of s)"

text \<open>The part before the first occurrence of a character that satisfies \<open>p\<close>, and the rest.\<close>

definition break_at :: "(char \<Rightarrow> bool) \<Rightarrow> string \<Rightarrow> string \<times> string" where
  "break_at p s = (takeWhile (\<lambda>c. \<not> p c) s, dropWhile (\<lambda>c. \<not> p c) s)"

text \<open>\<open>[digitpart] "." digitpart | digitpart ["."]\<close>, as an exact rational.\<close>

definition parse_number :: "string \<Rightarrow> rat option" where
  "parse_number s =
     (case break_at (\<lambda>c. c = CHR ''.'') s of
        (ip, []) \<Rightarrow> if is_digitpart ip then Some (of_nat (digits_val ip)) else None
      | (ip, dot # fp) \<Rightarrow>
          if (ip = [] \<or> is_digitpart ip) \<and> (fp = [] \<or> is_digitpart fp)
             \<and> \<not> (ip = [] \<and> fp = [])
          then Some (of_nat (digits_val ip)
                     + of_nat (digits_val fp) / 10 ^ length (digits_of fp))
          else None)"

text \<open>\<open>("e" | "E") ["+" | "-"] digitpart\<close>, or nothing.\<close>

definition parse_exponent :: "string \<Rightarrow> int option" where
  "parse_exponent s =
     (case s of
        [] \<Rightarrow> Some 0
      | e # r \<Rightarrow>
          (case r of
             [] \<Rightarrow> None
           | c # ds \<Rightarrow>
               if c = CHR ''-'' then
                 (if is_digitpart ds then Some (- int (digits_val ds)) else None)
               else if c = CHR ''+'' then
                 (if is_digitpart ds then Some (int (digits_val ds)) else None)
               else if is_digitpart r then Some (int (digits_val r)) else None))"

definition scale10 :: "rat \<Rightarrow> int \<Rightarrow> rat" where
  "scale10 m e = (if 0 \<le> e then m * 10 ^ nat e else m / 10 ^ nat (- e))"

definition lower_char :: "char \<Rightarrow> char" where
  "lower_char c =
     (if c \<in> set ''ABCDEFGHIJKLMNOPQRSTUVWXYZ''
      then char_of (of_char c + (32::nat)) else c)"

definition parse_abs_float :: "string \<Rightarrow> pyfloat option" where
  "parse_abs_float s =
     (let l = map lower_char s in
      if l = ''inf'' \<or> l = ''infinity'' then Some PInf
      else if l = ''nan'' then Some NaN
      else (case break_at (\<lambda>c. c = CHR ''e'' \<or> c = CHR ''E'') s of
              (m, x) \<Rightarrow>
                (case parse_number m of
                   None \<Rightarrow> None
                 | Some q \<Rightarrow>
                     (case parse_exponent x of
                        None \<Rightarrow> None
                      | Some e \<Rightarrow> Some (Fin (scale10 q e))))))"

fun negate :: "pyfloat \<Rightarrow> pyfloat" where
  "negate (Fin q) = Fin (- q)"
| "negate PInf = NInf"
| "negate NInf = PInf"
| "negate NaN = NaN"

text \<open>
  The whitespace that \<open>float\<close> removes around an ASCII string is that of C's
  \<open>isspace\<close>, which is narrower than that of \<open>str.strip\<close>.
\<close>

definition is_float_space :: "char \<Rightarrow> bool" where
  "is_float_space c = (c \<in> set [CHR 0x09, CHR 0x0A, CHR 0x0B, CHR 0x0C, CHR 0x0D, CHR 0x20])"

definition float_strip :: "string \<Rightarrow> string" where
  "float_strip s = rev (dropWhile is_float_space (rev (dropWhile is_float_space s)))"

definition py_float :: "string \<Rightarrow> pyfloat option" where
  "py_float s =
     (case float_strip s of
        [] \<Rightarrow> None
      | c # cs \<Rightarrow>
          if c = CHR ''-'' then map_option negate (parse_abs_float cs)
          else if c = CHR ''+'' then parse_abs_float cs
          else parse_abs_float (c # cs))"

section \<open>Currency parsing\<close>

text \<open>
  \<open>replace(num)\<close>: a missing value gives the integer 0; a string has its commas and
  dollar signs removed and goes through \<open>float\<close>, whose \<open>ValueError\<close> is not caught; an
  integer, a boolean (a subclass of \<open>int\<close>) or a float is returned as it is; any other
  object gives the integer 0.
\<close>

definition replace :: "val \<Rightarrow> error + val" where
  "replace num =
     (case isna_cond num of
        Inl e \<Rightarrow> Inl e
      | Inr True \<Rightarrow> Inr (IntV 0)
      | Inr False \<Rightarrow>
          (case num of
             Str s \<Rightarrow>
               (case py_float (remove_char CHR ''$'' (remove_char CHR '','' s)) of
                  None \<Rightarrow> Inl ValueError
                | Some f \<Rightarrow> Inr (FloatV f))
           | IntV i \<Rightarrow> Inr num
           | BoolV b \<Rightarrow> Inr num
           | FloatV f \<Rightarrow> Inr num
           | _ \<Rightarrow> Inr (IntV 0)))"

section \<open>Results that may raise\<close>

text \<open>A Python exception is the left summand; it ends the computation that raised it.\<close>

definition bind :: "error + 'a \<Rightarrow> ('a \<Rightarrow> error + 'b) \<Rightarrow> error + 'b" where
  "bind m f = (case m of Inl e \<Rightarrow> Inl e | Inr x \<Rightarrow> f x)"

text \<open>Applying \<open>f\<close> to each element in order, stopping at the first exception.\<close>

fun map_err :: "('a \<Rightarrow> error + 'b) \<Rightarrow> 'a list \<Rightarrow> error + 'b list" where
  "map_err f [] = Inr []"
| "map_err f (x # xs) =
     (case f x of
        Inl e \<Rightarrow> Inl e
      | Inr y \<Rightarrow> (case map_err f xs of Inl e \<Rightarrow> Inl e | Inr ys \<Rightarrow> Inr (y # ys)))"

section \<open>Tables\<close>

text \<open>
  A \<open>DataFrame\<close> is its list of column labels and its rows in index order; a row pairs
  each label with the cell at that column, in column order. The readers give every column
  of a file a label of its own (a repeated header gets a numbered suffix), but a rename can
  make two labels equal, so labels are a list and a row is an association list.
  The index is the default one: a row is identified by its position.
\<close>

type_synonym row = "(string \<times> val) list"

record dataframe =
  columns :: "string list"
  rows :: "row list"

text \<open>Every row carries the labels of the table, in order.\<close>

definition wf_frame :: "dataframe \<Rightarrow> bool" where
  "wf_frame df = list_all (\<lambda>r. map fst r = columns df) (rows df)"

text \<open>\<open>row[c]\<close> on a row whose label \<open>c\<close> is not repeated.\<close>

definition row_get :: "row \<Rightarrow> string \<Rightarrow> error + val" where
  "row_get r c = (case map_of r c of None \<Rightarrow> Inl (KeyError [c]) | Some v \<Rightarrow> Inr v)"

text \<open>\<open>df[c]\<close>: the cells of column \<open>c\<close>, one per row.\<close>

definition get_column :: "dataframe \<Rightarrow> string \<Rightarrow> error + val list" where
  "get_column df c =
     (if c \<in> set (columns df) then map_err (\<lambda>r. row_get r c) (rows df)
      else Inl (KeyError [c]))"

text \<open>
  \<open>df.drop(columns=labels)\<close>: with the default \<open>errors='raise'\<close> a label that is not a
  column raises \<open>KeyError\<close>, which names the missing labels.
\<close>

definition df_drop :: "string list \<Rightarrow> dataframe \<Rightarrow> error + dataframe" where
  "df_drop labels df =
     (case filter (\<lambda>l. l \<notin> set (columns df)) labels of
        [] \<Rightarrow> Inr \<lparr>columns = filter (\<lambda>c. c \<notin> set labels) (columns df),
                   rows = map (filter (\<lambda>(c, v). c \<notin> set labels)) (rows df)\<rparr>
      | m # ms \<Rightarrow> Inl (KeyError (m # ms)))"

text \<open>
  \<open>df.rename(columns=mapping)\<close>: each label in the mapping is replaced, all at once; a key
  of the mapping that is not a column is ignored.
\<close>

definition rename_label :: "(string \<times> string) list \<Rightarrow> string \<Rightarrow> string" where
  "rename_label m c = (case map_of m c of None \<Rightarrow> c | Some n \<Rightarrow> n)"

definition df_rename :: "(string \<times> string) list \<Rightarrow> dataframe \<Rightarrow> dataframe" where
  "df_rename m df =
     \<lparr>columns = map (rename_label m) (columns df),
      rows = map (map (\<lambda>(c, v). (rename_label m c, v))) (rows df)\<rparr>"

text \<open>
  \<open>df[c] = values\<close>: an existing column \<open>c\<close> is overwritten in place, a new one is added
  as the last column.
\<close>

definition set_cell :: "string \<Rightarrow> val \<Rightarrow> row \<Rightarrow> row" where
  "set_cell c v r =
     (if c \<in> fst ` set r then map (\<lambda>(n, x). if n = c then (n, v) else (n, x)) r
      else r @ [(c, v)])"

definition df_set_column :: "string \<Rightarrow> val list \<Rightarrow> dataframe \<Rightarrow> dataframe" where
  "df_set_column c vs df =
     \<lparr>columns = (if c \<in> set (columns df) then columns df else columns df @ [c]),
      rows = map (\<lambda>(r, v). set_cell c v r) (zip (rows df) vs)\<rparr>"

text \<open>\<open>df[c] = v\<close> for a scalar \<open>v\<close>: the same value in every row.\<close>

definition df_set_scalar :: "string \<Rightarrow> val \<Rightarrow> dataframe \<Rightarrow> dataframe" where
  "df_set_scalar c v df = df_set_column c (replicate (length (rows df)) v) df"

text \<open>\<open>series.fillna(v)\<close> on the cells of a column.\<close>

definition fillna :: "val \<Rightarrow> val list \<Rightarrow> val list" where
  "fillna v xs = map (\<lambda>x. if isna x then v else x) xs"

section \<open>Logging\<close>

datatype level = INFO | WARNING | ERROR

type_synonym log = "(level \<times> string) list"

section \<open>The schema normalizer\<close>

definition drop_columns :: "string list" where
  "drop_columns =
    [''Other Country.1'', ''Other Major Gift Region.1'', ''Other Primary Metro.1'',
     ''Other Zip.1'', ''Other State.1'', ''Other City.1'', ''Other Address.1'',
     ''Other Address Incomplete?.1'', ''Other Type.1'', ''Other Country'',
     ''Other Major Gift Region'', ''Other Primary Metro'', ''Other Zip'', ''Other State'',
     ''Other City'', ''Other Address'', ''Other Address Is Primary?'',
     ''Other Address Incomplete?'', ''Other Type'', ''Home Address Incomplete?'',
     ''Home Address Is Primary?'', ''Work Country'', ''Work Primary Metro Area'',
     ''Work Major Gift Region'', ''Work Phone'', ''Work County'', ''Work Zip'',
     ''Work State'', ''Work City'', ''Work Address'', ''Work Address Is Primary?'',
     ''Work Address Incomplete?'', ''Career Level'', ''Full Name'', ''Title'', ''First Name'',
     ''Last/Name/Org Name'', ''Committee Name'', ''Committee Role'', ''Former Commitee Name'',
     ''Former Committee Role'', ''Spouse LookupID'',
     ''Formal Mailing Name (Joint/Individual)'', ''Informal Mailing Name (Joint/Individual)'',
     ''Payments Received'', ''Expectancies (Balance Due)'', ''Commitments (Balance Due)'',
     ''# of Recognition Transactions'', ''Number of Years of Recognition'',
     ''One-Time Gifts'', ''Commitments'', ''Expectancies'', ''A.6'', ''A.7'', ''A.5'',
     ''A.4'', ''A.8'', ''Payments Received.1'', ''A.9'', ''Commitments (Balance Due).1'',
     ''A.10'', ''Expectancies (Balance Due).1'', ''A.11'', ''Last Amount'',
     ''Last Designation'', ''# of Recognition Transactions.1'',
     ''Number of Years of Recognition.1'', '' Campaign Recognition'', ''A.12'',
     ''One-Time Gifts.1'', ''Commitments.1'', ''A.13'', ''A.14'', ''Expectancies.1'',
     ''A.15'', ''Last Visit/Introduction by'', ''Interaction Type'', ''Job Category'',
     ''Home Phone'', ''Monteith Society'', ''Primary Capacity Rating Type'',
     ''Primary Capacity Rating Date'', ''Primary Inclination Rating Type'',
     ''Primary Inclination Rating Date'', ''Gift Officer Field Rating'',
     ''Gift Officer Field Rating Date'', ''Research Rating'', ''Research Rating Date'',
     ''Capacity Verified Rating'', ''Capacity Verified Rating Date'',
     ''Capacity Unverified Rating'', ''Capacity Unverified Rating Date'',
     ''Blackbaud Hard Asset'', ''Blackbaud Hard Asset Date'', ''Wealth-X Net Worth'',
     ''Wealth-X Net Worth Date'', ''Windfall Data Net Worth'',
     ''Windfall Data Net Worth Date'', ''Target Analytics Net Worth'',
     ''Target Analytics Net Worth Date'', ''PDA UM Inclination'', ''UM AG Propensity'',
     ''Med Primary Manager'']"

definition isr_recognition :: string where
  "isr_recognition = ''Institute for Social Research'' @ [newline] @ ''Lifetime Recognition''"

definition um_recognition :: string where
  "um_recognition = ''UM-Wide'' @ [newline] @ ''Lifetime Recognition''"

text \<open>
  \<open>UM_donor(row)\<close>. The \<open>and\<close> evaluates the UM-wide cell only when the status is
  missing.
\<close>

definition UM_donor :: "row \<Rightarrow> error + val" where
  "UM_donor r =
     bind (row_get r ''donor_status'') (\<lambda>status.
     bind (isna_cond status) (\<lambda>status_null.
       if status_null then
         bind (row_get r um_recognition) (\<lambda>um.
         bind (isna_cond um) (\<lambda>um_null.
           if \<not> um_null then Inr (Str ''UM Donor'') else Inr status))
       else Inr status))"

text \<open>
  The f-string \<open>"{Home Address}, {Home City}, {Home State} {Home Zip}, {Home Country}"\<close>
  over the cells of a row; the normalizer and the candidate selection both build it.
  \<open>fmt\<close> is Python's formatting of a cell inside an f-string (\<open>str\<close> of the object),
  which the pipeline takes from the language.
\<close>

definition address_string :: "(val \<Rightarrow> string) \<Rightarrow> row \<Rightarrow> error + string" where
  "address_string fmt x =
     bind (row_get x ''Home Address'') (\<lambda>a.
     bind (row_get x ''Home City'') (\<lambda>c.
     bind (row_get x ''Home State'') (\<lambda>s.
     bind (row_get x ''Home Zip'') (\<lambda>z.
     bind (row_get x ''Home Country'') (\<lambda>k.
       Inr (fmt a @ '', '' @ fmt c @ '', '' @ fmt s @ '' '' @ fmt z @ '', '' @ fmt k))))))"

text \<open>The lambda that builds \<open>Primary Address\<close>.\<close>

definition primary_address :: "(val \<Rightarrow> string) \<Rightarrow> row \<Rightarrow> error + val" where
  "primary_address fmt x = bind (address_string fmt x) (\<lambda>a. Inr (Str a))"

text \<open>
  The steps of \<open>clean_and_prepare_data\<close> after the check for \<open>LID\<close>. Every row-wise
  \<open>apply\<close> and every \<open>map\<close> visits the rows in order and the first exception ends the
  call. \<open>to_int\<close> stands for what pandas' own
  \<open>pd.to_numeric(_, errors='coerce').fillna(0).astype(int)\<close> does to one cell of the
  \<open>Age\<close> column. The \<open>map\<close> with \<open>na_action='ignore'\<close> leaves a missing cell as it is;
  the \<open>fillna\<close> with \<open>inplace=True\<close> writes through to the column of the table, as it does
  without copy-on-write. pandas stores a new column under a dtype that it infers (an
  integer 0 among floats is held as 0.0); the model keeps the values as the functions
  return them. On a table without rows every row-wise result is empty.
\<close>

definition derive_columns ::
  "(val \<Rightarrow> string) \<Rightarrow> (val \<Rightarrow> error + val) \<Rightarrow> dataframe \<Rightarrow> error + dataframe"
where
  "derive_columns fmt to_int df0 =
     (let df1 = (if ''Latitude'' \<notin> set (columns df0) \<or> ''Longitude'' \<notin> set (columns df0)
                 then df_set_scalar ''Longitude'' NoneV (df_set_scalar ''Latitude'' NoneV df0)
                 else df0);
          df2 = (if ''latitude'' \<in> set (columns df1) \<and> ''longitude'' \<in> set (columns df1)
                 then df_rename [(''latitude'', ''Latitude''), (''longitude'', ''Longitude'')] df1
                 else df1)
      in
      bind (map_err (primary_address fmt) (rows df2)) (\<lambda>addrs.
      let df3 = df_set_column ''Primary Address'' addrs df2 in
      bind (get_column df3 isr_recognition) (\<lambda>isr.
      let df4 = df_set_column ''donor_status''
                  (map (\<lambda>x. if isna x then x else Str ''ISR Donor'') isr) df3 in
      bind (map_err UM_donor (rows df4)) (\<lambda>status.
      let df5 = df_set_column ''donor_status'' status df4 in
      bind (get_column df5 ''donor_status'') (\<lambda>status'.
      let df6 = df_set_column ''donor_status'' (fillna (Str ''Non Donor'') status') df5 in
      bind (get_column df6 isr_recognition) (\<lambda>isr'.
      bind (map_err replace isr') (\<lambda>isr_num.
      let df7 = df_set_column
                  ''Institute for Social Research Lifetime Recognition Numeric'' isr_num df6 in
      bind (get_column df7 um_recognition) (\<lambda>um.
      bind (map_err replace um) (\<lambda>um_num.
      let df8 = df_set_column ''UM-Wide Lifetime Recognition Numeric'' um_num df7 in
      bind (get_column df8 ''Age'') (\<lambda>age.
      bind (map_err to_int age) (\<lambda>age'.
        Inr (df_set_column ''Age'' age' df8))))))))))))"

text \<open>
  \<open>clean_and_prepare_data(df)\<close>, with the messages it logs. An exception leaves the
  function: nothing in it or in \<open>main\<close> catches one.
\<close>

definition clean_and_prepare_data ::
  "(val \<Rightarrow> string) \<Rightarrow> (val \<Rightarrow> error + val) \<Rightarrow> dataframe
     \<Rightarrow> log \<times> (error + dataframe)"
where
  "clean_and_prepare_data fmt to_int df =
     (let start = [(INFO, ''Starting cleaning and preparing data.'')] in
      case df_drop drop_columns df of
        Inl e \<Rightarrow> (start, Inl e)
      | Inr d \<Rightarrow>
          (let renamed = ''Constituent LookupID'' \<in> set (columns d);
               d1 = (if renamed then df_rename [(''Constituent LookupID'', ''LID'')] d else d);
               lg = (if renamed then start
                     else start @
                       [(ERROR, ''Column 'Constituent LookupID' not found in DataFrame.'')])
           in if ''LID'' \<notin> set (columns d1)
              then (lg, Inr (df_rename [(''Constituent LookupID'', ''LID'')] d1))
              else (lg, derive_columns fmt to_int d1)))"

section \<open>The affiliation expander\<close>

text \<open>
  \<open>clean_affiliations(affiliation)\<close>. A missing value gives no token. A string has its
  newlines replaced by commas and is split at every comma; \<open>list(set(_))\<close> removes
  repeated tokens. Python leaves the order of a set open: the model lists the tokens in
  the order of their first occurrence, and the results below speak about the set only.
  A number or a list has no \<open>replace\<close> method (\<open>AttributeError\<close>); a timestamp has
  one that does not take two strings (\<open>TypeError\<close>).
\<close>

definition clean_affiliations :: "val \<Rightarrow> error + string list" where
  "clean_affiliations affiliation =
     bind (isna_cond affiliation) (\<lambda>missing.
       if missing then Inr []
       else (case affiliation of
               Str s \<Rightarrow> Inr (remdups (split_on CHR '','' (replace_char newline CHR '','' s)))
             | Timestamp t \<Rightarrow> Inl TypeError
             | _ \<Rightarrow> Inl AttributeError))"

text \<open>The elements that \<open>all_affiliations.update(x)\<close> adds: those of a list, the characters of a string.\<close>

fun elements :: "val \<Rightarrow> error + string list" where
  "elements (ListV xs) = Inr xs"
| "elements (Str s) = Inr (map (\<lambda>c. [c]) s)"
| "elements _ = Inl TypeError"

text \<open>\<open>affil in x\<close>: membership in a list, substring of a string.\<close>

fun contains :: "string \<Rightarrow> val \<Rightarrow> error + val" where
  "contains affil (ListV xs) = Inr (BoolV (affil \<in> set xs))"
| "contains affil (Str s) = Inr (BoolV (sublist affil s))"
| "contains affil _ = Inl TypeError"

definition affiliation_label :: "string \<Rightarrow> string" where
  "affiliation_label affil = ''Affiliation: '' @ affil"

text \<open>The loop that adds one boolean column for each token.\<close>

fun add_affiliation_columns :: "string list \<Rightarrow> dataframe \<Rightarrow> error + dataframe" where
  "add_affiliation_columns [] df = Inr df"
| "add_affiliation_columns (affil # rest) df =
     bind (get_column df ''Affiliation List'') (\<lambda>lists.
     bind (map_err (contains affil) lists) (\<lambda>flags.
       add_affiliation_columns rest (df_set_column (affiliation_label affil) flags df)))"

definition create_affiliation_columns ::
  "dataframe \<Rightarrow> log \<times> (error + dataframe \<times> string list)"
where
  "create_affiliation_columns df =
     (if ''Constituent Affiliation'' \<notin> set (columns df)
      then ([(ERROR, ''Constituent Affiliation column missing.'')], Inr (df, []))
      else ([],
        bind (get_column df ''Constituent Affiliation'') (\<lambda>raw.
        bind (map_err clean_affiliations raw) (\<lambda>parsed.
        let df1 = df_set_column ''Affiliation List'' (map ListV parsed) df in
        bind (get_column df1 ''Affiliation List'') (\<lambda>lists.
        bind (map_err elements lists) (\<lambda>tokens.
        let all_affiliations = remdups (concat tokens) in
        bind (add_affiliation_columns all_affiliations df1) (\<lambda>df2.
          Inr (df2, all_affiliations))))))))"

text \<open>
  The parse as the specification words it: newlines become commas, the text is split at
  the commas, and the tokens form a set; a missing field has no token.
\<close>

definition token_set :: "val \<Rightarrow> string set" where
  "token_set v =
     (case v of
        Str s \<Rightarrow> set (split_on CHR '','' (replace_char newline CHR '','' s))
      | _ \<Rightarrow> {})"

text \<open>\<open>sep.join(words)\<close>, to say what a split keeps.\<close>

fun join :: "char \<Rightarrow> string list \<Rightarrow> string" where
  "join sep [] = []"
| "join sep [w] = w"
| "join sep (w # v # ws) = w @ sep # join sep (v # ws)"

section \<open>Candidates for geocoding\<close>













section \<open>De-duplication after the interest merge\<close>

text \<open>
  \<open>drop_duplicates\<close> compares the keys as a hash table does: missing values are one
  key, numbers are compared by value whatever their type (\<open>1 == 1.0 == True\<close>), and a
  list cannot be hashed.
\<close>

datatype key = KNull | KNum rat | KPInf | KNInf | KStr string | KTime int






section \<open>The missing-value filler\<close>

text \<open>
  The filler reads the dtype that pandas holds for each column, by its name
  (\<open>str(df[column].dtype)\<close>), and for a categorical column its categories. A table
  together with both is a \<open>typed_frame\<close>.
\<close>

record typed_frame =
  frame :: dataframe
  dtype :: "string \<Rightarrow> string"
  categories :: "string \<Rightarrow> val list"

definition not_available :: val where
  "not_available = Str ''Not Available''"

text \<open>\<open>pd.Timestamp('1900-01-01')\<close>, in nanoseconds since 1970-01-01.\<close>

definition sentinel_date :: val where
  "sentinel_date = Timestamp (- 2208988800000000000)"

definition fill_values :: "(string \<times> val) list" where
  "fill_values =
     [(''object'', not_available),
      (''float64'', FloatV (Fin 0)),
      (''int64'', IntV 0),
      (''datetime64[ns]'', sentinel_date),
      (''bool'', BoolV False),
      (''category'', not_available)]"

text \<open>\<open>fill_values.get(dtype, 'Not Available')\<close>.\<close>

definition fill_value_for :: "string \<Rightarrow> val" where
  "fill_value_for dt = (case map_of fill_values dt of None \<Rightarrow> not_available | Some v \<Rightarrow> v)"

text \<open>
  One turn of the loop. With a repeated label \<open>df[column]\<close> is a table and has no
  \<open>dtype\<close> (\<open>AttributeError\<close>). A categorical column refuses a value that is not one of
  its categories (\<open>TypeError\<close>); a column of any other dtype is taken to store the fill
  value, which pandas does for the dtypes of the table and for the other numpy dtypes, by
  turning the column into an object column. The \<open>fillna\<close> with \<open>inplace=True\<close> writes
  through to the column of the table. The messages logged are left out: they do not enter
  the result.
\<close>

definition fill_column :: "string \<Rightarrow> typed_frame \<Rightarrow> error + typed_frame" where
  "fill_column c tf =
     (if length (filter (\<lambda>x. x = c) (columns (frame tf))) \<noteq> 1 then Inl AttributeError
      else
        bind (get_column (frame tf) c) (\<lambda>cells.
        let dt = dtype tf c in
        if list_ex isna cells then
          (let fill_value = fill_value_for dt;
               tf1 = (if dt = ''category'' \<and> not_available \<notin> set (categories tf c)
                      then tf\<lparr>categories := (categories tf)(c := categories tf c @ [not_available])\<rparr>
                      else tf)
           in if dt = ''category'' \<and> fill_value \<notin> set (categories tf1 c) then Inl TypeError
              else Inr (tf1\<lparr>frame := df_set_column c (fillna fill_value cells) (frame tf1)\<rparr>))
        else Inr tf))"

fun fill_columns :: "string list \<Rightarrow> typed_frame \<Rightarrow> error + typed_frame" where
  "fill_columns [] tf = Inr tf"
| "fill_columns (c # cs) tf = bind (fill_column c tf) (fill_columns cs)"

text \<open>\<open>fill_missing_values(df)\<close>: the loop over \<open>df.columns\<close>.\<close>

definition fill_missing_values :: "typed_frame \<Rightarrow> error + typed_frame" where
  "fill_missing_values tf = fill_columns (columns (frame tf)) tf"

section \<open>Example tables\<close>

text \<open>
  Python's \<open>str\<close> on the cells that the examples format: text, \<open>None\<close>, integers and
  booleans. (On the other values, which no example formats, it gives the empty string.)
\<close>

definition digit_char :: "nat \<Rightarrow> char" where
  "digit_char n = ''0123456789'' ! n"

function str_nat :: "nat \<Rightarrow> string" where
  "str_nat n = (if n < 10 then [digit_char n] else str_nat (n div 10) @ [digit_char (n mod 10)])"
  by pat_completeness auto
termination
  by (relation "measure id") auto

declare str_nat.simps [simp del]

fun str_cell :: "val \<Rightarrow> string" where
  "str_cell (Str s) = s"
| "str_cell NoneV = ''None''"
| "str_cell (IntV i) = (if i < 0 then CHR ''-'' # str_nat (nat (- i)) else str_nat (nat i))"
| "str_cell (BoolV b) = (if b then ''True'' else ''False'')"
| "str_cell _ = []"

text \<open>
  The columns that the normalizer reads, and three constituents: one with both
  lifetime-recognition cells filled, one with the UM-wide cell only, one with neither.
\<close>

definition core_columns :: "string list" where
  "core_columns =
     [''Constituent LookupID'', ''Home Address'', ''Home City'', ''Home State'', ''Home Zip'',
      ''Home Country'', isr_recognition, um_recognition, ''Age'']"

definition example_rows :: "row list" where
  "example_rows =
     [zip core_columns
        [IntV 1001, Str ''426 Thompson St'', Str ''Ann Arbor'', Str ''MI'', Str ''48104'',
         Str ''USA'', Str ''$1,234.50'', Str ''$5,000.00'', IntV 70],
      zip core_columns
        [IntV 1002, Str ''500 S State St'', Str ''Ann Arbor'', Str ''MI'', Str ''48109'',
         Str ''USA'', NoneV, Str ''$250.00'', IntV 41],
      zip core_columns
        [IntV 1003, Str ''1 Main St'', Str ''Dexter'', Str ''MI'', Str ''48130'',
         Str ''USA'', NoneV, NoneV, NoneV]]"

text \<open>A table as the normalizer returns it after the removal: the columns above only.\<close>

definition core_frame :: dataframe where
  "core_frame = \<lparr>columns = core_columns, rows = example_rows\<rparr>"

text \<open>A raw export: every column of the removal list, empty, before the columns above.\<close>

definition with_dropped :: "row \<Rightarrow> row" where
  "with_dropped r = map (\<lambda>c. (c, NoneV)) drop_columns @ r"

definition example_frame :: dataframe where
  "example_frame = \<lparr>columns = drop_columns @ core_columns, rows = map with_dropped example_rows\<rparr>"

text \<open>Three constituents with their affiliation field: two tokens, one token, none.\<close>

definition affiliation_frame :: dataframe where
  "affiliation_frame =
     \<lparr>columns = [''LID'', ''Constituent Affiliation''],
      rows = [[(''LID'', IntV 1001), (''Constituent Affiliation'', Str ''A, B'')],
              [(''LID'', IntV 1002), (''Constituent Affiliation'', Str ''B'')],
              [(''LID'', IntV 1003), (''Constituent Affiliation'', NoneV)]]\<rparr>"






text \<open>
  A table with a column of each dtype of the policy and one of another dtype; the first
  row has every cell missing that its dtype lets be missing.
\<close>

definition typed_example :: typed_frame where
  "typed_example =
     \<lparr>frame =
        \<lparr>columns = [''Name'', ''Gift'', ''Count'', ''Last Gift'', ''Active'', ''Segment'', ''Span''],
         rows = [[(''Name'', NoneV), (''Gift'', FloatV NaN), (''Count'', IntV 3),
                  (''Last Gift'', NaT), (''Active'', BoolV True), (''Segment'', FloatV NaN),
                  (''Span'', NaT)],
                 [(''Name'', Str ''Ann''), (''Gift'', FloatV (Fin (25 / 2))), (''Count'', IntV 1),
                  (''Last Gift'', Timestamp 1700000000000000000), (''Active'', BoolV False),
                  (''Segment'', Str ''Major''), (''Span'', IntV 86400000000000)]]\<rparr>,
      dtype = (\<lambda>c. case map_of [(''Name'', ''object''), (''Gift'', ''float64''),
                                   (''Count'', ''int64''), (''Last Gift'', ''datetime64[ns]''),
                                   (''Active'', ''bool''), (''Segment'', ''category''),
                                   (''Span'', ''timedelta64[ns]'')] c of
                     None \<Rightarrow> ''object'' | Some d \<Rightarrow> d),
      categories = (\<lambda>c. if c = ''Segment'' then [Str ''Major'', Str ''Annual''] else [])\<rparr>"

text \<open>A raw export without the key column.\<close>

definition keyless_frame :: dataframe where
  "keyless_frame =
     \<lparr>columns = drop_columns @ tl core_columns, rows = map (\<lambda>r. with_dropped (tl r)) example_rows\<rparr>"

section \<open>Basic facts about the table operations\<close>

lemmas float_defs =
  py_float_def float_strip_def is_float_space_def parse_abs_float_def lower_char_def break_at_def
  parse_number_def is_digit_def digits_val_def digits_of_def digit_val_def
  parse_exponent_def scale10_def

lemma bind_Inr_iff: "bind m f = Inr y \<longleftrightarrow> (\<exists>x. m = Inr x \<and> f x = Inr y)"
  by (cases m) (simp_all add: bind_def)

lemma map_err_Inr:
  "map_err f xs = Inr ys \<Longrightarrow>
     length ys = length xs \<and> (\<forall>i<length xs. f (xs ! i) = Inr (ys ! i))"
proof (induction xs arbitrary: ys)
  case Nil
  then show ?case by simp
next
  case (Cons x xs)
  from Cons.prems obtain y zs where fx: "f x = Inr y" and rest: "map_err f xs = Inr zs"
    and ys: "ys = y # zs"
    by (auto split: sum.splits)
  from Cons.IH [OF rest] have len: "length zs = length xs"
    and nth: "\<forall>i<length xs. f (xs ! i) = Inr (zs ! i)" by simp_all
  show ?case
  proof (intro conjI allI impI)
    show "length ys = length (x # xs)" using len ys by simp
  next
    fix i assume "i < length (x # xs)"
    then show "f ((x # xs) ! i) = Inr (ys ! i)"
      using fx nth ys by (cases i) simp_all
  qed
qed

lemma map_of_overwrite_other:
  "k \<noteq> c \<Longrightarrow> map_of (map (\<lambda>(n, x). if n = c then (n, v) else (n, x)) r) k = map_of r k"
  by (induction r) auto

lemma map_of_overwrite_same:
  "c \<in> fst ` set r \<Longrightarrow>
     map_of (map (\<lambda>(n, x). if n = c then (n, v) else (n, x)) r) c = Some v"
  by (induction r) auto

lemma map_of_set_cell:
  "map_of (set_cell c v r) k = (if k = c then Some v else map_of r k)"
proof (cases "c \<in> fst ` set r")
  case True
  then show ?thesis
    by (simp add: set_cell_def map_of_overwrite_other map_of_overwrite_same)
next
  case False
  then have "map_of r c = None" by (simp add: map_of_eq_None_iff)
  with False show ?thesis
    by (auto simp: set_cell_def map_add_def split: option.splits)
qed

lemma rows_set_column_length:
  "length vs = length (rows df) \<Longrightarrow> length (rows (df_set_column c vs df)) = length (rows df)"
  by (simp add: df_set_column_def)

lemma rows_set_column_nth:
  "length vs = length (rows df) \<Longrightarrow> i < length (rows df) \<Longrightarrow>
     rows (df_set_column c vs df) ! i = set_cell c (vs ! i) (rows df ! i)"
  by (simp add: df_set_column_def)

lemma get_column_Inr:
  "get_column df c = Inr vs \<Longrightarrow>
     length vs = length (rows df) \<and> (\<forall>i<length (rows df). map_of (rows df ! i) c = Some (vs ! i))"
proof -
  assume a: "get_column df c = Inr vs"
  then have m: "map_err (\<lambda>r. row_get r c) (rows df) = Inr vs"
    by (simp add: get_column_def split: if_splits)
  from map_err_Inr [OF m] show ?thesis
    by (auto simp: row_get_def split: option.splits)
qed

lemma map_of_drop_row:
  "map_of (filter (\<lambda>(c, v). c \<notin> S) r) k = (if k \<in> S then None else map_of r k)"
  by (induction r) auto

lemma map_of_rename_row:
  "rename_label m k = k \<Longrightarrow> (\<forall>c. rename_label m c = k \<longrightarrow> c = k) \<Longrightarrow>
     map_of (map (\<lambda>(c, v). (rename_label m c, v)) r) k = map_of r k"
  by (induction r) auto

lemma lookup_set_column:
  "length vs = length (rows df) \<Longrightarrow> i < length (rows df) \<Longrightarrow>
     map_of (rows (df_set_column c vs df) ! i) k
       = (if k = c then Some (vs ! i) else map_of (rows df ! i) k)"
  by (simp add: rows_set_column_nth map_of_set_cell)

lemma rows_set_scalar_length:
  "length (rows (df_set_scalar c v df)) = length (rows df)"
  by (simp add: df_set_scalar_def rows_set_column_length)

lemma lookup_set_scalar:
  "i < length (rows df) \<Longrightarrow>
     map_of (rows (df_set_scalar c v df) ! i) k
       = (if k = c then Some v else map_of (rows df ! i) k)"
  by (simp add: df_set_scalar_def lookup_set_column)

lemma rows_rename_length: "length (rows (df_rename m df)) = length (rows df)"
  by (simp add: df_rename_def)

lemma rename_label_cases: "rename_label m c = c \<or> rename_label m c \<in> snd ` set m"
  by (auto simp: rename_label_def split: option.splits dest: map_of_SomeD intro: rev_image_eqI)

lemma lookup_rename:
  assumes "i < length (rows df)" and "k \<notin> fst ` set m" and "k \<notin> snd ` set m"
  shows "map_of (rows (df_rename m df) ! i) k = map_of (rows df ! i) k"
proof -
  have "map_of m k = None" using assms(2) by (simp add: map_of_eq_None_iff)
  then have fixk: "rename_label m k = k" by (simp add: rename_label_def)
  have inj: "\<forall>c. rename_label m c = k \<longrightarrow> c = k"
    using rename_label_cases [of m] assms(3) by metis
  show ?thesis
    using assms(1) by (simp add: df_rename_def map_of_rename_row [OF fixk inj])
qed


lemma isna_cond_Inr: "isna_cond v = Inr b \<Longrightarrow> b = isna v"
  by (cases v) (auto split: if_splits)

lemma row_get_Inr: "row_get r c = Inr v \<longleftrightarrow> map_of r c = Some v"
  by (simp add: row_get_def split: option.splits)

lemma df_drop_present:
  "set labels \<subseteq> set (columns df) \<Longrightarrow>
     df_drop labels df =
       Inr \<lparr>columns = filter (\<lambda>c. c \<notin> set labels) (columns df),
            rows = map (filter (\<lambda>(c, v). c \<notin> set labels)) (rows df)\<rparr>"
proof -
  assume "set labels \<subseteq> set (columns df)"
  then have "filter (\<lambda>l. l \<notin> set (columns df)) labels = []"
    by (auto simp: filter_empty_conv)
  then show ?thesis by (simp add: df_drop_def)
qed

lemma df_drop_absent:
  "\<not> set labels \<subseteq> set (columns df) \<Longrightarrow>
     df_drop labels df = Inl (KeyError (filter (\<lambda>l. l \<notin> set (columns df)) labels))"
proof -
  assume "\<not> set labels \<subseteq> set (columns df)"
  then have "filter (\<lambda>l. l \<notin> set (columns df)) labels \<noteq> []"
    by (auto simp: filter_empty_conv)
  then show ?thesis by (simp add: df_drop_def split: list.splits)
qed

lemma df_drop_Inr:
  "df_drop labels df = Inr d \<Longrightarrow>
     set labels \<subseteq> set (columns df)
     \<and> d = \<lparr>columns = filter (\<lambda>c. c \<notin> set labels) (columns df),
            rows = map (filter (\<lambda>(c, v). c \<notin> set labels)) (rows df)\<rparr>"
  using df_drop_present [of labels df] df_drop_absent [of labels df]
  by (cases "set labels \<subseteq> set (columns df)") auto

lemma key_labels_kept:
  "''LID'' \<notin> set drop_columns" "''Constituent LookupID'' \<notin> set drop_columns"
  "isr_recognition \<notin> set drop_columns" "um_recognition \<notin> set drop_columns"
  by (simp_all add: drop_columns_def isr_recognition_def um_recognition_def newline_def)

lemma recognition_not_key:
  "isr_recognition \<noteq> ''LID''" "isr_recognition \<noteq> ''Constituent LookupID''"
  "um_recognition \<noteq> ''LID''" "um_recognition \<noteq> ''Constituent LookupID''"
  by (simp_all add: isr_recognition_def um_recognition_def)

lemma core_disjoint: "set core_columns \<inter> set drop_columns = {}"
  by (simp add: core_columns_def drop_columns_def isr_recognition_def um_recognition_def
      newline_def)

lemma filter_with_dropped:
  assumes "fst ` set r \<inter> set drop_columns = {}"
  shows "filter (\<lambda>(c, v). c \<notin> set drop_columns) (with_dropped r) = r"
proof -
  have "filter (\<lambda>(c, v). c \<notin> set drop_columns) (map (\<lambda>c. (c, NoneV)) drop_columns) = []"
    by (simp add: filter_empty_conv)
  moreover have "filter (\<lambda>(c, v). c \<notin> set drop_columns) r = r"
    using assms by (intro filter_True) auto
  ultimately show ?thesis by (simp add: with_dropped_def)
qed

lemma drop_raw_export:
  assumes cs: "set cs \<inter> set drop_columns = {}"
    and rs: "\<forall>r\<in>set rs. fst ` set r \<subseteq> set cs"
  shows "df_drop drop_columns \<lparr>columns = drop_columns @ cs, rows = map with_dropped rs\<rparr>
           = Inr \<lparr>columns = cs, rows = rs\<rparr>"
proof -
  let ?df = "\<lparr>columns = drop_columns @ cs, rows = map with_dropped rs\<rparr>"
  have sub: "set drop_columns \<subseteq> set (columns ?df)" by simp
  have "filter (\<lambda>c. c \<notin> set drop_columns) drop_columns = []"
    by (simp add: filter_empty_conv)
  moreover have "filter (\<lambda>c. c \<notin> set drop_columns) cs = cs"
    using cs by (intro filter_True) auto
  ultimately have c: "filter (\<lambda>c. c \<notin> set drop_columns) (columns ?df) = cs"
    by simp
  have "\<forall>r\<in>set rs. filter (\<lambda>(c, v). c \<notin> set drop_columns) (with_dropped r) = r"
  proof
    fix r assume "r \<in> set rs"
    with rs cs have "fst ` set r \<inter> set drop_columns = {}" by blast
    then show "filter (\<lambda>(c, v). c \<notin> set drop_columns) (with_dropped r) = r"
      by (rule filter_with_dropped)
  qed
  then have r: "map (filter (\<lambda>(c, v). c \<notin> set drop_columns)) (rows ?df) = rs"
    by (simp add: map_idI)
  show ?thesis
    unfolding df_drop_present [OF sub] c r ..
qed

lemma example_rows_labels: "\<forall>r\<in>set example_rows. map fst r = core_columns"
  by (simp add: example_rows_def core_columns_def)

lemma example_drop: "df_drop drop_columns example_frame = Inr core_frame"
proof -
  have "\<forall>r\<in>set example_rows. fst ` set r \<subseteq> set core_columns"
    using example_rows_labels by (metis list.set_map order_refl)
  from drop_raw_export [OF core_disjoint this] show ?thesis
    by (simp add: example_frame_def core_frame_def)
qed

lemma map_of_with_dropped:
  "k \<notin> set drop_columns \<Longrightarrow> map_of (with_dropped r) k = map_of r k"
proof -
  assume "k \<notin> set drop_columns"
  then have "map_of (map (\<lambda>c. (c, NoneV)) drop_columns) k = None"
    by (simp add: map_of_eq_None_iff image_image)
  then show ?thesis by (simp add: with_dropped_def map_add_def)
qed

lemma example_rows_length: "length example_rows = 3"
  by (simp add: example_rows_def)

lemma example_lookup:
  "k \<notin> set drop_columns \<Longrightarrow> i < 3 \<Longrightarrow>
     map_of (rows example_frame ! i) k = map_of (example_rows ! i) k"
  by (simp add: example_frame_def example_rows_length map_of_with_dropped)

lemmas frame_defs =
  bind_def row_get_def get_column_def df_rename_def rename_label_def set_cell_def
  df_set_column_def df_set_scalar_def fillna_def

lemmas normalizer_defs =
  derive_columns_def primary_address_def address_string_def UM_donor_def
  isr_recognition_def um_recognition_def newline_def

lemma example_run:
  "\<exists>out. snd (clean_and_prepare_data str_cell Inr example_frame) = Inr out"
  by (simp add: clean_and_prepare_data_def example_drop core_frame_def core_columns_def
      example_rows_def frame_defs normalizer_defs replace_def remove_char_def float_defs
      str_nat.simps digit_char_def)

lemma df_rename_absent:
  assumes "wf_frame d" and "fst ` set m \<inter> set (columns d) = {}"
  shows "df_rename m d = d"
proof -
  have lab: "rename_label m c = c" if "c \<in> set (columns d)" for c
  proof -
    from that assms(2) have "map_of m c = None" by (auto simp: map_of_eq_None_iff)
    then show ?thesis by (simp add: rename_label_def)
  qed
  then have c: "map (rename_label m) (columns d) = columns d"
    by (simp add: map_idI)
  have "map (\<lambda>(c, v). (rename_label m c, v)) r = r" if "r \<in> set (rows d)" for r
  proof -
    from that assms(1) have "map fst r = columns d"
      by (simp add: wf_frame_def list_all_iff)
    then have "fst ` set r = set (columns d)" by (metis list.set_map)
    then have "\<forall>x\<in>set r. (\<lambda>(c, v). (rename_label m c, v)) x = x"
      using lab by force
    then show ?thesis by (simp add: map_idI)
  qed
  then have r: "map (map (\<lambda>(c, v). (rename_label m c, v))) (rows d) = rows d"
    by (simp add: map_idI)
  show ?thesis by (simp add: df_rename_def c r)
qed

lemma split_on_nonempty: "split_on sep s \<noteq> []"
  by (induction s) (auto split: list.splits)

lemma join_Cons_nonempty: "ws \<noteq> [] \<Longrightarrow> join sep (w # ws) = w @ sep # join sep ws"
  by (cases ws) simp_all

lemma join_split_on: "join sep (split_on sep s) = s"
proof (induction s)
  case Nil
  show ?case by simp
next
  case (Cons c cs)
  obtain w ws where sp: "split_on sep cs = w # ws"
    using split_on_nonempty [of sep cs] by (cases "split_on sep cs") auto
  show ?case
  proof (cases "c = sep")
    case True
    then show ?thesis
      using Cons.IH split_on_nonempty [of sep cs] by (simp add: join_Cons_nonempty)
  next
    case False
    have "join sep ((c # w) # ws) = c # join sep (w # ws)"
      by (cases ws) simp_all
    with False sp Cons.IH show ?thesis by simp
  qed
qed

lemma split_on_no_sep: "w \<in> set (split_on sep s) \<Longrightarrow> sep \<notin> set w"
proof (induction s arbitrary: w)
  case Nil
  then show ?case by simp
next
  case (Cons c cs)
  obtain v vs where sp: "split_on sep cs = v # vs"
    using split_on_nonempty [of sep cs] by (cases "split_on sep cs") auto
  show ?case
  proof (cases "c = sep")
    case True
    with Cons show ?thesis by auto
  next
    case False
    with Cons.prems sp have "w = c # v \<or> w \<in> set vs" by simp
    then show ?thesis
    proof
      assume "w = c # v"
      moreover have "sep \<notin> set v" using Cons.IH [of v] sp by simp
      ultimately show ?thesis using False by simp
    next
      assume "w \<in> set vs"
      then show ?thesis using Cons.IH [of w] sp by simp
    qed
  qed
qed

lemma split_on_subset: "w \<in> set (split_on sep s) \<Longrightarrow> set w \<subseteq> set s"
proof (induction s arbitrary: w)
  case Nil
  then show ?case by simp
next
  case (Cons c cs)
  obtain v vs where sp: "split_on sep cs = v # vs"
    using split_on_nonempty [of sep cs] by (cases "split_on sep cs") auto
  show ?case
  proof (cases "c = sep")
    case True
    with Cons show ?thesis by auto
  next
    case False
    with Cons.prems sp have "w = c # v \<or> w \<in> set vs" by simp
    then show ?thesis
    proof
      assume "w = c # v"
      moreover have "set v \<subseteq> set cs" using Cons.IH [of v] sp by simp
      ultimately show ?thesis by auto
    next
      assume "w \<in> set vs"
      then have "set w \<subseteq> set cs" using Cons.IH [of w] sp by simp
      then show ?thesis by auto
    qed
  qed
qed

lemma clean_affiliations_Str:
  "clean_affiliations (Str s) = Inr (remdups (split_on CHR '','' (replace_char newline CHR '','' s)))"
  by (simp add: clean_affiliations_def bind_def)

lemma clean_affiliations_tokens:
  "clean_affiliations v = Inr ts \<Longrightarrow> set ts = token_set v"
  by (cases v; cases "isna v")
     (auto simp: clean_affiliations_def bind_def token_set_def split: if_splits)

lemma affiliation_label_inj: "affiliation_label a = affiliation_label b \<longleftrightarrow> a = b"
  by (simp add: affiliation_label_def)

lemma affiliation_label_not_list: "affiliation_label a \<noteq> ''Affiliation List''"
  by (simp add: affiliation_label_def)

lemma affiliation_example:
  "snd (create_affiliation_columns affiliation_frame) =
     Inr (\<lparr>columns = [''LID'', ''Constituent Affiliation'', ''Affiliation List'',
                      ''Affiliation: A'', ''Affiliation:  B'', ''Affiliation: B''],
           rows = [[(''LID'', IntV 1001), (''Constituent Affiliation'', Str ''A, B''),
                    (''Affiliation List'', ListV [''A'', '' B'']),
                    (''Affiliation: A'', BoolV True), (''Affiliation:  B'', BoolV True),
                    (''Affiliation: B'', BoolV False)],
                   [(''LID'', IntV 1002), (''Constituent Affiliation'', Str ''B''),
                    (''Affiliation List'', ListV [''B'']),
                    (''Affiliation: A'', BoolV False), (''Affiliation:  B'', BoolV False),
                    (''Affiliation: B'', BoolV True)],
                   [(''LID'', IntV 1003), (''Constituent Affiliation'', NoneV),
                    (''Affiliation List'', ListV []),
                    (''Affiliation: A'', BoolV False), (''Affiliation:  B'', BoolV False),
                    (''Affiliation: B'', BoolV False)]]\<rparr>,
          [''A'', '' B'', ''B''])"
  by (simp add: create_affiliation_columns_def affiliation_frame_def frame_defs
      clean_affiliations_def replace_char_def newline_def affiliation_label_def)

lemma columns_set_column:
  "set (columns (df_set_column c vs df)) = insert c (set (columns df))"
  by (auto simp: df_set_column_def)

lemma contains_list: "contains a (ListV xs) = Inr (BoolV (a \<in> set xs))"
  by simp

lemma add_affiliation_columns_result:
  assumes "add_affiliation_columns ts df = Inr out"
    and "distinct ts"
    and "length ps = length (rows df)"
    and "\<forall>i<length (rows df). map_of (rows df ! i) ''Affiliation List'' = Some (ListV (ps ! i))"
  shows "length (rows out) = length (rows df)
    \<and> set (columns out) = set (columns df) \<union> affiliation_label ` set ts
    \<and> (\<forall>i<length (rows df).
          (\<forall>t\<in>set ts. map_of (rows out ! i) (affiliation_label t)
                          = Some (BoolV (t \<in> set (ps ! i))))
          \<and> (\<forall>k. k \<notin> affiliation_label ` set ts
                 \<longrightarrow> map_of (rows out ! i) k = map_of (rows df ! i) k))"
  using assms
proof (induction ts arbitrary: df)
  case Nil
  then show ?case by simp
next
  case (Cons t ts)
  let ?n = "length (rows df)"
  from Cons.prems(1) obtain lists flags where
    gl: "get_column df ''Affiliation List'' = Inr lists"
    and fl: "map_err (contains t) lists = Inr flags"
    and rest: "add_affiliation_columns ts (df_set_column (affiliation_label t) flags df) = Inr out"
    by (auto simp: bind_Inr_iff)
  let ?df' = "df_set_column (affiliation_label t) flags df"
  have ll: "length lists = ?n" using get_column_Inr [OF gl] by simp
  have lf: "length flags = ?n" using map_err_Inr [OF fl] ll by simp
  have n': "length (rows ?df') = ?n" using lf by (simp add: rows_set_column_length)
  have look': "map_of (rows ?df' ! i) k
                 = (if k = affiliation_label t then Some (flags ! i) else map_of (rows df ! i) k)"
    if "i < ?n" for i k
    using that lf by (simp add: lookup_set_column)
  have flag: "flags ! i = BoolV (t \<in> set (ps ! i))" if i: "i < ?n" for i
  proof -
    have "map_of (rows df ! i) ''Affiliation List'' = Some (lists ! i)"
      using get_column_Inr [OF gl] i by simp
    with Cons.prems(4) i have "lists ! i = ListV (ps ! i)" by simp
    moreover have "contains t (lists ! i) = Inr (flags ! i)"
      using map_err_Inr [OF fl] i ll by simp
    ultimately show ?thesis by simp
  qed
  have d: "distinct ts" and tn: "t \<notin> set ts" using Cons.prems(2) by simp_all
  have lp: "length ps = length (rows ?df')" using Cons.prems(3) n' by simp
  have al: "\<forall>i<length (rows ?df'). map_of (rows ?df' ! i) ''Affiliation List'' = Some (ListV (ps ! i))"
    using Cons.prems(4) n' look' affiliation_label_not_list [of t]
    by (metis (no_types, lifting))
  note IH = Cons.IH [OF rest d lp al]
  have len: "length (rows out) = ?n" using IH n' by simp
  have cols: "set (columns out) = set (columns df) \<union> affiliation_label ` set (t # ts)"
    using IH by (auto simp: columns_set_column)
  have cell: "(\<forall>u\<in>set (t # ts). map_of (rows out ! i) (affiliation_label u)
                          = Some (BoolV (u \<in> set (ps ! i))))
          \<and> (\<forall>k. k \<notin> affiliation_label ` set (t # ts)
                 \<longrightarrow> map_of (rows out ! i) k = map_of (rows df ! i) k)"
    if i: "i < ?n" for i
  proof -
    from i n' have i': "i < length (rows ?df')" by simp
    from IH i' have new: "\<forall>u\<in>set ts. map_of (rows out ! i) (affiliation_label u)
                          = Some (BoolV (u \<in> set (ps ! i)))"
      and old: "\<forall>k. k \<notin> affiliation_label ` set ts
                 \<longrightarrow> map_of (rows out ! i) k = map_of (rows ?df' ! i) k"
      by blast+
    have "affiliation_label t \<notin> affiliation_label ` set ts"
      using tn by (auto simp: affiliation_label_inj)
    with old have "map_of (rows out ! i) (affiliation_label t)
                     = map_of (rows ?df' ! i) (affiliation_label t)" by blast
    also have "\<dots> = Some (BoolV (t \<in> set (ps ! i)))"
      using look' [OF i] flag [OF i] by simp
    finally have head: "map_of (rows out ! i) (affiliation_label t)
                     = Some (BoolV (t \<in> set (ps ! i)))" .
    have other: "map_of (rows out ! i) k = map_of (rows df ! i) k"
      if "k \<notin> affiliation_label ` set (t # ts)" for k
    proof -
      from that have "k \<notin> affiliation_label ` set ts" and "k \<noteq> affiliation_label t" by auto
      with old look' [OF i] show ?thesis by simp
    qed
    from head new other show ?thesis by simp
  qed
  from len cols cell show ?case by blast
qed

lemma nth_equalityI':
  "length xs = length ys \<Longrightarrow> (\<And>i. i < length xs \<Longrightarrow> xs ! i = ys ! i) \<Longrightarrow> xs = ys"
  by (rule nth_equalityI) auto










lemma map_err_total:
  "(\<forall>x\<in>set xs. \<exists>y. f x = Inr y) \<Longrightarrow> \<exists>ys. map_err f xs = Inr ys"
  by (induction xs) auto









lemma fill_value_not_null: "\<not> isna (fill_value_for dt)"
  by (simp add: fill_value_for_def fill_values_def not_available_def sentinel_date_def)

text \<open>What one turn of the loop does to the cells.\<close>

lemma fill_column_result:
  assumes "fill_column c tf = Inr tf'"
  shows "columns (frame tf') = columns (frame tf)
    \<and> dtype tf' = dtype tf
    \<and> length (rows (frame tf')) = length (rows (frame tf))
    \<and> (\<forall>i<length (rows (frame tf)). \<forall>k.
          map_of (rows (frame tf') ! i) k =
            (if k = c then map_option (\<lambda>v. if isna v then fill_value_for (dtype tf c) else v)
                             (map_of (rows (frame tf) ! i) c)
             else map_of (rows (frame tf) ! i) k))"
proof -
  have one: "length (filter (\<lambda>x. x = c) (columns (frame tf))) = 1"
  proof (rule ccontr)
    assume "length (filter (\<lambda>x. x = c) (columns (frame tf))) \<noteq> 1"
    then have "fill_column c tf = Inl AttributeError" by (simp add: fill_column_def)
    with assms show False by simp
  qed
  have cin: "c \<in> set (columns (frame tf))"
  proof (rule ccontr)
    assume "c \<notin> set (columns (frame tf))"
    then have "filter (\<lambda>x. x = c) (columns (frame tf)) = []"
      by (auto simp: filter_empty_conv)
    with one show False by simp
  qed
  define body where "body cells =
       (let dt = dtype tf c in
        if list_ex isna cells then
          (let fill_value = fill_value_for dt;
               tf1 = (if dt = ''category'' \<and> not_available \<notin> set (categories tf c)
                      then tf\<lparr>categories := (categories tf)(c := categories tf c @ [not_available])\<rparr>
                      else tf)
           in if dt = ''category'' \<and> fill_value \<notin> set (categories tf1 c) then Inl TypeError
              else Inr (tf1\<lparr>frame := df_set_column c (fillna fill_value cells) (frame tf1)\<rparr>))
        else Inr tf)" for cells
  have fc: "fill_column c tf = bind (get_column (frame tf) c) body"
    using one unfolding fill_column_def body_def by simp
  from assms obtain cells where g: "get_column (frame tf) c = Inr cells"
    and rest0: "body cells = Inr tf'"
    unfolding fc bind_Inr_iff by blast
  note rest = rest0 [unfolded body_def]
  let ?n = "length (rows (frame tf))"
  have lc: "length cells = ?n" and cell: "\<forall>i<?n. map_of (rows (frame tf) ! i) c = Some (cells ! i)"
    using get_column_Inr [OF g] by simp_all
  show ?thesis
  proof (cases "list_ex isna cells")
    case False
    with rest have eq: "tf' = tf" by simp
    have "\<not> isna (cells ! i)" if "i < ?n" for i
      using False lc that by (auto simp: list_ex_iff)
    with cell eq show ?thesis by simp
  next
    case True
    let ?tf1 = "if dtype tf c = ''category'' \<and> not_available \<notin> set (categories tf c)
                then tf\<lparr>categories := (categories tf)(c := categories tf c @ [not_available])\<rparr>
                else tf"
    let ?fv = "fill_value_for (dtype tf c)"
    from rest True have eq: "tf' = ?tf1\<lparr>frame := df_set_column c (fillna ?fv cells) (frame ?tf1)\<rparr>"
      by (simp add: Let_def split: if_splits)
    have f1: "frame ?tf1 = frame tf" by simp
    have d1: "dtype ?tf1 = dtype tf" by simp
    have fr: "frame tf' = df_set_column c (fillna ?fv cells) (frame tf)"
      unfolding eq using f1 by simp
    have lf: "length (fillna ?fv cells) = ?n" using lc by (simp add: fillna_def)
    have cols: "columns (frame tf') = columns (frame tf)"
      unfolding fr using cin by (simp add: df_set_column_def)
    have dt: "dtype tf' = dtype tf" unfolding eq using d1 by simp
    have len: "length (rows (frame tf')) = ?n"
      unfolding fr using lf by (simp add: rows_set_column_length)
    have look: "map_of (rows (frame tf') ! i) k =
            (if k = c then map_option (\<lambda>v. if isna v then ?fv else v)
                             (map_of (rows (frame tf) ! i) c)
             else map_of (rows (frame tf) ! i) k)"
      if i: "i < ?n" for i k
    proof -
      have "map_of (rows (frame tf') ! i) k
              = (if k = c then Some (fillna ?fv cells ! i) else map_of (rows (frame tf) ! i) k)"
        unfolding fr using lf i by (simp add: lookup_set_column)
      moreover have "fillna ?fv cells ! i = (if isna (cells ! i) then ?fv else cells ! i)"
        using i lc by (simp add: fillna_def)
      ultimately show ?thesis using cell i by simp
    qed
    from cols dt len look show ?thesis by blast
  qed
qed

lemma fill_value_category: "fill_value_for ''category'' = not_available"
  by (simp add: fill_value_for_def fill_values_def)

lemma fill_column_total:
  assumes one: "length (filter (\<lambda>x. x = c) (columns (frame tf))) = 1"
    and has: "\<forall>r\<in>set (rows (frame tf)). map_of r c \<noteq> None"
  shows "\<exists>tf'. fill_column c tf = Inr tf'"
proof -
  have cin: "c \<in> set (columns (frame tf))"
  proof (rule ccontr)
    assume "c \<notin> set (columns (frame tf))"
    then have "filter (\<lambda>x. x = c) (columns (frame tf)) = []"
      by (auto simp: filter_empty_conv)
    with one show False by simp
  qed
  have "\<forall>r\<in>set (rows (frame tf)). \<exists>v. row_get r c = Inr v"
    using has by (auto simp: row_get_def split: option.splits)
  from map_err_total [OF this] cin obtain cells where
    g: "get_column (frame tf) c = Inr cells"
    by (auto simp: get_column_def)
  show ?thesis
    using one g
    by (auto simp: fill_column_def bind_def Let_def fill_value_category)
qed



text \<open>The loop: every column it visits is filled, the others are left as they are.\<close>

lemma fill_columns_result:
  assumes "fill_columns cs tf = Inr tf'"
  shows "columns (frame tf') = columns (frame tf)
    \<and> dtype tf' = dtype tf
    \<and> length (rows (frame tf')) = length (rows (frame tf))
    \<and> (\<forall>i<length (rows (frame tf)). \<forall>k.
          map_of (rows (frame tf') ! i) k =
            (if k \<in> set cs
             then map_option (\<lambda>v. if isna v then fill_value_for (dtype tf k) else v)
                    (map_of (rows (frame tf) ! i) k)
             else map_of (rows (frame tf) ! i) k))"
  using assms
proof (induction cs arbitrary: tf)
  case Nil
  then show ?case by simp
next
  case (Cons c cs)
  from Cons.prems obtain tf1 where s1: "fill_column c tf = Inr tf1"
    and s2: "fill_columns cs tf1 = Inr tf'"
    by (auto simp: bind_Inr_iff)
  note r1 = fill_column_result [OF s1]
  note r2 = Cons.IH [OF s2]
  let ?n = "length (rows (frame tf))"
  let ?F = "\<lambda>k v. if isna v then fill_value_for (dtype tf k) else v"
  have n1: "length (rows (frame tf1)) = ?n" using r1 by simp
  have d1: "dtype tf1 = dtype tf" using r1 by simp
  have idem: "map_option (?F k) (map_option (?F k) x) = map_option (?F k) x" for k x
    by (cases x) (simp_all add: fill_value_not_null)
  have look: "map_of (rows (frame tf') ! i) k =
            (if k \<in> set (c # cs) then map_option (?F k) (map_of (rows (frame tf) ! i) k)
             else map_of (rows (frame tf) ! i) k)"
    if i: "i < ?n" for i k
  proof -
    have a: "map_of (rows (frame tf1) ! i) x =
            (if x = c then map_option (?F c) (map_of (rows (frame tf) ! i) c)
             else map_of (rows (frame tf) ! i) x)" for x
      using r1 i by simp
    have b: "map_of (rows (frame tf') ! i) x =
            (if x \<in> set cs then map_option (?F x) (map_of (rows (frame tf1) ! i) x)
             else map_of (rows (frame tf1) ! i) x)" for x
      using r2 [unfolded d1 n1] i by simp
    show ?thesis
    proof (cases "k = c")
      case True
      have "map_of (rows (frame tf') ! i) c
              = map_option (?F c) (map_of (rows (frame tf) ! i) c)"
        unfolding b [of c] a [of c] by (simp add: idem)
      then show ?thesis unfolding True by simp
    next
      case False
      then show ?thesis unfolding b [of k] a [of k] by simp
    qed
  qed
  from r1 r2 n1 d1 look show ?case by simp
qed

lemma fill_columns_total:
  assumes "\<forall>c\<in>set cs. length (filter (\<lambda>x. x = c) (columns (frame tf))) = 1"
    and "\<forall>c\<in>set cs. \<forall>r\<in>set (rows (frame tf)). map_of r c \<noteq> None"
  shows "\<exists>tf'. fill_columns cs tf = Inr tf'"
  using assms
proof (induction cs arbitrary: tf)
  case Nil
  show ?case by simp
next
  case (Cons c cs)
  from Cons.prems have "\<exists>tf1. fill_column c tf = Inr tf1"
    by (intro fill_column_total) simp_all
  then obtain tf1 where s1: "fill_column c tf = Inr tf1" ..
  note r1 = fill_column_result [OF s1]
  have cols: "\<forall>k\<in>set cs. length (filter (\<lambda>x. x = k) (columns (frame tf1))) = 1"
    using Cons.prems(1) r1 by simp
  have has: "\<forall>k\<in>set cs. \<forall>r\<in>set (rows (frame tf1)). map_of r k \<noteq> None"
  proof (intro ballI)
    fix k r assume k: "k \<in> set cs" and r: "r \<in> set (rows (frame tf1))"
    from r obtain i where i: "i < length (rows (frame tf1))" and ri: "r = rows (frame tf1) ! i"
      by (auto simp: in_set_conv_nth)
    from i r1 have i': "i < length (rows (frame tf))" by simp
    then have "rows (frame tf) ! i \<in> set (rows (frame tf))" by simp
    with Cons.prems(2) k have "map_of (rows (frame tf) ! i) k \<noteq> None"
      and "map_of (rows (frame tf) ! i) c \<noteq> None" by simp_all
    with r1 i' show "map_of r k \<noteq> None" unfolding ri by auto
  qed
  from Cons.IH [OF cols has] s1 show ?case by (simp add: bind_def)
qed







lemma distinct_label_count:
  "distinct xs \<Longrightarrow> c \<in> set xs \<Longrightarrow> length (filter (\<lambda>x. x = c) xs) = 1"
  by (induction xs) (auto simp: filter_empty_conv)

lemma wf_row_lookup:
  assumes "wf_frame df" and "r \<in> set (rows df)" and "c \<in> set (columns df)"
  shows "map_of r c \<noteq> None"
proof -
  from assms(1,2) have "map fst r = columns df" by (simp add: wf_frame_def list_all_iff)
  then have "fst ` set r = set (columns df)" by (metis list.set_map)
  with assms(3) show ?thesis by (simp add: map_of_eq_None_iff)
qed

lemma fill_missing_values_total:
  assumes "wf_frame (frame tf)" and "distinct (columns (frame tf))"
  shows "\<exists>out. fill_missing_values tf = Inr out"
  unfolding fill_missing_values_def
  using assms by (intro fill_columns_total) (auto simp: distinct_label_count wf_row_lookup)

lemma typed_example_wf:
  "wf_frame (frame typed_example)" "distinct (columns (frame typed_example))"
  by (simp_all add: typed_example_def wf_frame_def)

section \<open>Currency parsing: results\<close>

text \<open>
  C3, as the specification states it, fails: a string that is not a number after the
  commas and dollar signs are removed does not give 0. The conversion raises
  \<open>ValueError\<close> and \<open>replace\<close> does not catch it.
\<close>

theorem replace_unparseable_raises:
  "replace (Str ''N/A'') = Inl ValueError \<and> replace (Str ''N/A'') \<noteq> Inr (IntV 0)"
  by (simp add: replace_def remove_char_def float_defs)

text \<open>
  C3, amended. \<open>replace\<close> returns the integer 0 for a missing value and for an object
  that is neither a string nor a number (a timestamp). For a string it removes every comma
  and every dollar sign and converts what is left with \<open>float\<close>: the result is that
  float when the conversion succeeds, and the \<open>ValueError\<close> of the conversion otherwise.
  An integer, a boolean or a float that is not missing is returned unchanged. In particular
  \<open>replace("$1,234.50")\<close> is 1234.5, \<open>replace(None)\<close> is 0 and \<open>replace(42)\<close> is 42.
\<close>

theorem replace_cases:
  "replace NoneV = Inr (IntV 0)
   \<and> replace NaT = Inr (IntV 0)
   \<and> replace (FloatV NaN) = Inr (IntV 0)
   \<and> replace (Timestamp t) = Inr (IntV 0)
   \<and> replace (Str s) =
       (case py_float (filter (\<lambda>c. c \<noteq> CHR '','' \<and> c \<noteq> CHR ''$'') s) of
          None \<Rightarrow> Inl ValueError
        | Some f \<Rightarrow> Inr (FloatV f))
   \<and> replace (IntV i) = Inr (IntV i)
   \<and> replace (BoolV b) = Inr (BoolV b)
   \<and> replace (FloatV (Fin q)) = Inr (FloatV (Fin q))
   \<and> replace (FloatV PInf) = Inr (FloatV PInf)
   \<and> replace (FloatV NInf) = Inr (FloatV NInf)
   \<and> replace (Str ''$1,234.50'') = Inr (FloatV (Fin (2469 / 2)))
   \<and> replace (IntV 42) = Inr (IntV 42)"
proof -
  have str: "replace (Str s) =
       (case py_float (filter (\<lambda>c. c \<noteq> CHR '','' \<and> c \<noteq> CHR ''$'') s) of
          None \<Rightarrow> Inl ValueError
        | Some f \<Rightarrow> Inr (FloatV f))"
    by (simp add: replace_def remove_char_def conj_commute)
  have ex: "replace (Str ''$1,234.50'') = Inr (FloatV (Fin (2469 / 2)))"
    by (simp add: replace_def remove_char_def float_defs)
  show ?thesis
    using str ex by (simp add: replace_def)
qed

section \<open>The schema normalizer: results\<close>

lemma UM_donor_Inr:
  assumes "UM_donor r = Inr s" and "map_of r ''donor_status'' = Some st"
  shows "if isna st
         then \<exists>um. map_of r um_recognition = Some um
                \<and> s = (if isna um then st else Str ''UM Donor'')
         else s = st"
proof -
  from assms(2) have g: "row_get r ''donor_status'' = Inr st" by (simp add: row_get_Inr)
  from assms(1) g obtain b where b: "isna_cond st = Inr b"
    and rest: "(if b then
         bind (row_get r um_recognition) (\<lambda>um.
         bind (isna_cond um) (\<lambda>um_null.
           if \<not> um_null then Inr (Str ''UM Donor'') else Inr st))
       else Inr st) = Inr s"
    by (auto simp: UM_donor_def bind_Inr_iff)
  have bq: "b = isna st" using b by (rule isna_cond_Inr)
  show ?thesis
  proof (cases "isna st")
    case True
    with rest bq obtain um c where um: "row_get r um_recognition = Inr um"
      and c: "isna_cond um = Inr c"
      and s: "(if \<not> c then Inr (Str ''UM Donor'') else Inr st) = (Inr s :: error + val)"
      by (auto simp: bind_Inr_iff)
    have "c = isna um" using c by (rule isna_cond_Inr)
    with um s True show ?thesis by (auto simp: row_get_Inr split: if_splits)
  next
    case False
    with rest bq show ?thesis by simp
  qed
qed

lemma derive_columns_donor:
  assumes ok: "derive_columns fmt to_int d = Inr out"
  shows "length (rows out) = length (rows d)
    \<and> (\<forall>i<length (rows d). \<exists>isr. map_of (rows d ! i) isr_recognition = Some isr
         \<and> (if \<not> isna isr
            then map_of (rows out ! i) ''donor_status'' = Some (Str ''ISR Donor'')
            else \<exists>um. map_of (rows d ! i) um_recognition = Some um
                 \<and> map_of (rows out ! i) ''donor_status''
                     = Some (Str (if \<not> isna um then ''UM Donor'' else ''Non Donor''))))"
proof -
  let ?n = "length (rows d)"
  let ?df1 = "if ''Latitude'' \<notin> set (columns d) \<or> ''Longitude'' \<notin> set (columns d)
              then df_set_scalar ''Longitude'' NoneV (df_set_scalar ''Latitude'' NoneV d)
              else d"
  let ?df2 = "if ''latitude'' \<in> set (columns ?df1) \<and> ''longitude'' \<in> set (columns ?df1)
              then df_rename [(''latitude'', ''Latitude''), (''longitude'', ''Longitude'')] ?df1
              else ?df1"
  from ok obtain addrs isr status status' isr' isr_num um um_num age age' where
    e1: "map_err (primary_address fmt) (rows ?df2) = Inr addrs"
    and e2: "get_column (df_set_column ''Primary Address'' addrs ?df2) isr_recognition = Inr isr"
    and e3: "map_err UM_donor (rows (df_set_column ''donor_status''
                (map (\<lambda>x. if isna x then x else Str ''ISR Donor'') isr)
                (df_set_column ''Primary Address'' addrs ?df2))) = Inr status"
    and e4: "get_column (df_set_column ''donor_status'' status
               (df_set_column ''donor_status''
                (map (\<lambda>x. if isna x then x else Str ''ISR Donor'') isr)
                (df_set_column ''Primary Address'' addrs ?df2))) ''donor_status'' = Inr status'"
    and e5: "map_err replace isr' = Inr isr_num"
    and e5': "get_column (df_set_column ''donor_status'' (fillna (Str ''Non Donor'') status')
               (df_set_column ''donor_status'' status
               (df_set_column ''donor_status''
                (map (\<lambda>x. if isna x then x else Str ''ISR Donor'') isr)
                (df_set_column ''Primary Address'' addrs ?df2)))) isr_recognition = Inr isr'"
    and e6: "map_err replace um = Inr um_num"
    and e6': "get_column
               (df_set_column ''Institute for Social Research Lifetime Recognition Numeric'' isr_num
               (df_set_column ''donor_status'' (fillna (Str ''Non Donor'') status')
               (df_set_column ''donor_status'' status
               (df_set_column ''donor_status''
                (map (\<lambda>x. if isna x then x else Str ''ISR Donor'') isr)
                (df_set_column ''Primary Address'' addrs ?df2))))) um_recognition = Inr um"
    and e7: "map_err to_int age = Inr age'"
    and e7': "get_column (df_set_column ''UM-Wide Lifetime Recognition Numeric'' um_num
               (df_set_column ''Institute for Social Research Lifetime Recognition Numeric'' isr_num
               (df_set_column ''donor_status'' (fillna (Str ''Non Donor'') status')
               (df_set_column ''donor_status'' status
               (df_set_column ''donor_status''
                (map (\<lambda>x. if isna x then x else Str ''ISR Donor'') isr)
                (df_set_column ''Primary Address'' addrs ?df2)))))) ''Age'' = Inr age"
    and e8: "out = df_set_column ''Age'' age'
               (df_set_column ''UM-Wide Lifetime Recognition Numeric'' um_num
               (df_set_column ''Institute for Social Research Lifetime Recognition Numeric'' isr_num
               (df_set_column ''donor_status'' (fillna (Str ''Non Donor'') status')
               (df_set_column ''donor_status'' status
               (df_set_column ''donor_status''
                (map (\<lambda>x. if isna x then x else Str ''ISR Donor'') isr)
                (df_set_column ''Primary Address'' addrs ?df2))))))"
    unfolding derive_columns_def Let_def bind_Inr_iff by blast
  let ?df3 = "df_set_column ''Primary Address'' addrs ?df2"
  let ?df4 = "df_set_column ''donor_status''
                (map (\<lambda>x. if isna x then x else Str ''ISR Donor'') isr) ?df3"
  let ?df5 = "df_set_column ''donor_status'' status ?df4"
  let ?df6 = "df_set_column ''donor_status'' (fillna (Str ''Non Donor'') status') ?df5"
  let ?df7 = "df_set_column ''Institute for Social Research Lifetime Recognition Numeric''
                isr_num ?df6"
  let ?df8 = "df_set_column ''UM-Wide Lifetime Recognition Numeric'' um_num ?df7"
  have n1: "length (rows ?df1) = ?n" by (simp add: rows_set_scalar_length)
  have n2: "length (rows ?df2) = ?n" using n1 by (simp add: rows_rename_length)
  have la: "length addrs = ?n" using map_err_Inr [OF e1] n2 by simp
  have n3: "length (rows ?df3) = ?n" using la n2 by (simp add: rows_set_column_length)
  have li: "length isr = ?n" using get_column_Inr [OF e2] n3 by simp
  have n4: "length (rows ?df4) = ?n" using li n3 by (simp add: rows_set_column_length)
  have ls: "length status = ?n" using map_err_Inr [OF e3] n4 by simp
  have n5: "length (rows ?df5) = ?n" using ls n4 by (simp add: rows_set_column_length)
  have ls': "length status' = ?n" using get_column_Inr [OF e4] n5 by simp
  have n6: "length (rows ?df6) = ?n"
    using ls' n5 by (simp add: rows_set_column_length fillna_def)
  have li': "length isr' = ?n" using get_column_Inr [OF e5'] n6 by simp
  have lin: "length isr_num = ?n" using map_err_Inr [OF e5] li' by simp
  have n7: "length (rows ?df7) = ?n" using lin n6 by (simp add: rows_set_column_length)
  have lu: "length um = ?n" using get_column_Inr [OF e6'] n7 by simp
  have lun: "length um_num = ?n" using map_err_Inr [OF e6] lu by simp
  have n8: "length (rows ?df8) = ?n" using lun n7 by (simp add: rows_set_column_length)
  have lg: "length age = ?n" using get_column_Inr [OF e7'] n8 by simp
  have lg': "length age' = ?n" using map_err_Inr [OF e7] lg by simp
  have nout: "length (rows out) = ?n"
    unfolding e8 using lg' n8 by (simp add: rows_set_column_length)
  have row: "\<exists>x. map_of (rows d ! i) isr_recognition = Some x
         \<and> (if \<not> isna x
            then map_of (rows out ! i) ''donor_status'' = Some (Str ''ISR Donor'')
            else \<exists>um. map_of (rows d ! i) um_recognition = Some um
                 \<and> map_of (rows out ! i) ''donor_status''
                     = Some (Str (if \<not> isna um then ''UM Donor'' else ''Non Donor'')))"
    if i: "i < ?n" for i
  proof -
    have base: "map_of (rows ?df2 ! i) k = map_of (rows d ! i) k"
      if "k \<notin> {''Latitude'', ''Longitude'', ''latitude'', ''longitude''}" for k
      using that i by (simp add: lookup_rename lookup_set_scalar rows_set_scalar_length)
    have isr_name: "isr_recognition \<notin> {''Latitude'', ''Longitude'', ''latitude'', ''longitude''}"
      "isr_recognition \<noteq> ''Primary Address''" "isr_recognition \<noteq> ''donor_status''"
      by (simp_all add: isr_recognition_def)
    have um_name: "um_recognition \<notin> {''Latitude'', ''Longitude'', ''latitude'', ''longitude''}"
      "um_recognition \<noteq> ''Primary Address''" "um_recognition \<noteq> ''donor_status''"
      by (simp_all add: um_recognition_def)
    have "map_of (rows ?df3 ! i) isr_recognition = Some (isr ! i)"
      using get_column_Inr [OF e2] n3 i by simp
    moreover have "map_of (rows ?df3 ! i) isr_recognition = map_of (rows ?df2 ! i) isr_recognition"
      using lookup_set_column [of addrs ?df2 i "''Primary Address''" isr_recognition]
        la n2 i isr_name(2) by simp
    ultimately have isr_d: "map_of (rows d ! i) isr_recognition = Some (isr ! i)"
      using base [OF isr_name(1)] by simp
    have ds4: "map_of (rows ?df4 ! i) ''donor_status''
                 = Some (if isna (isr ! i) then isr ! i else Str ''ISR Donor'')"
      using lookup_set_column [of "map (\<lambda>x. if isna x then x else Str ''ISR Donor'') isr"
                                  ?df3 i "''donor_status''" "''donor_status''"]
        li n3 i by simp
    have "map_of (rows ?df4 ! i) um_recognition = map_of (rows ?df3 ! i) um_recognition"
      using lookup_set_column [of "map (\<lambda>x. if isna x then x else Str ''ISR Donor'') isr"
                                  ?df3 i "''donor_status''" um_recognition]
        li n3 i um_name(3) by simp
    moreover have "map_of (rows ?df3 ! i) um_recognition = map_of (rows ?df2 ! i) um_recognition"
      using lookup_set_column [of addrs ?df2 i "''Primary Address''" um_recognition]
        la n2 i um_name(2) by simp
    ultimately have um4: "map_of (rows ?df4 ! i) um_recognition = map_of (rows d ! i) um_recognition"
      using base [OF um_name(1)] by simp
    have st: "UM_donor (rows ?df4 ! i) = Inr (status ! i)"
      using map_err_Inr [OF e3] n4 i by simp
    note um_case = UM_donor_Inr [OF st ds4]
    have ds5: "map_of (rows ?df5 ! i) ''donor_status'' = Some (status ! i)"
      using lookup_set_column [of status ?df4 i "''donor_status''" "''donor_status''"]
        ls n4 i by simp
    have st': "status' ! i = status ! i"
      using get_column_Inr [OF e4] n5 i ds5 by simp
    have ds6: "map_of (rows ?df6 ! i) ''donor_status''
                 = Some (if isna (status ! i) then Str ''Non Donor'' else status ! i)"
      using lookup_set_column [of "fillna (Str ''Non Donor'') status'"
                                  ?df5 i "''donor_status''" "''donor_status''"]
        ls' n5 i st' by (simp add: fillna_def)
    have ds7: "map_of (rows ?df7 ! i) ''donor_status'' = map_of (rows ?df6 ! i) ''donor_status''"
      using lookup_set_column [of isr_num ?df6 i
              "''Institute for Social Research Lifetime Recognition Numeric''" "''donor_status''"]
        lin n6 i by simp
    have ds8: "map_of (rows ?df8 ! i) ''donor_status'' = map_of (rows ?df7 ! i) ''donor_status''"
      using lookup_set_column [of um_num ?df7 i
              "''UM-Wide Lifetime Recognition Numeric''" "''donor_status''"]
        lun n7 i by simp
    have ds9: "map_of (rows out ! i) ''donor_status'' = map_of (rows ?df8 ! i) ''donor_status''"
      unfolding e8
      using lookup_set_column [of age' ?df8 i "''Age''" "''donor_status''"] lg' n8 i by simp
    have dsout: "map_of (rows out ! i) ''donor_status''
                   = Some (if isna (status ! i) then Str ''Non Donor'' else status ! i)"
      using ds9 ds8 ds7 ds6 by simp
    show ?thesis
    proof (cases "isna (isr ! i)")
      case False
      with um_case have "status ! i = Str ''ISR Donor''" by simp
      with dsout isr_d False show ?thesis by simp
    next
      case True
      with um_case obtain u where u: "map_of (rows ?df4 ! i) um_recognition = Some u"
        and s: "status ! i = (if isna u then isr ! i else Str ''UM Donor'')"
        by auto
      from u um4 have ud: "map_of (rows d ! i) um_recognition = Some u" by simp
      from s True dsout have "map_of (rows out ! i) ''donor_status''
          = Some (Str (if \<not> isna u then ''UM Donor'' else ''Non Donor''))"
        by simp
      with ud isr_d True show ?thesis by simp
    qed
  qed
  from nout row show ?thesis by blast
qed

text \<open>
  C1. When \<open>clean_and_prepare_data\<close> returns a table on an input that has the key column
  (under either name), the output has the rows of the input, in order, and
  \<open>donor_status\<close> of each row is \<open>ISR Donor\<close> if the ISR lifetime-recognition cell of
  that row is not missing, whatever the UM-wide cell holds; otherwise \<open>UM Donor\<close> if the
  UM-wide lifetime-recognition cell is not missing; otherwise \<open>Non Donor\<close>.
\<close>

theorem donor_status_rule:
  assumes run: "snd (clean_and_prepare_data fmt to_int df) = Inr out"
    and key: "''Constituent LookupID'' \<in> set (columns df) \<or> ''LID'' \<in> set (columns df)"
  shows "length (rows out) = length (rows df)
    \<and> (\<forall>i<length (rows df). \<exists>isr. map_of (rows df ! i) isr_recognition = Some isr
         \<and> (if \<not> isna isr
            then map_of (rows out ! i) ''donor_status'' = Some (Str ''ISR Donor'')
            else \<exists>um. map_of (rows df ! i) um_recognition = Some um
                 \<and> map_of (rows out ! i) ''donor_status''
                     = Some (Str (if \<not> isna um then ''UM Donor'' else ''Non Donor''))))"
proof -
  from run obtain d where dr: "df_drop drop_columns df = Inr d"
    by (auto simp: clean_and_prepare_data_def Let_def split: sum.splits)
  from df_drop_Inr [OF dr] have
    dcols: "columns d = filter (\<lambda>c. c \<notin> set drop_columns) (columns df)"
    and drows: "rows d = map (filter (\<lambda>(c, v). c \<notin> set drop_columns)) (rows df)"
    by simp_all
  let ?d1 = "if ''Constituent LookupID'' \<in> set (columns d)
             then df_rename [(''Constituent LookupID'', ''LID'')] d else d"
  have lid: "''LID'' \<in> set (columns ?d1)"
    using key dcols key_labels_kept(1,2) by (auto simp: df_rename_def rename_label_def)
  with run dr have der: "derive_columns fmt to_int ?d1 = Inr out"
    by (simp add: clean_and_prepare_data_def Let_def split: if_splits)
  have n1: "length (rows ?d1) = length (rows df)"
    using drows by (simp add: rows_rename_length)
  have look: "map_of (rows ?d1 ! i) k = map_of (rows df ! i) k"
    if "i < length (rows df)" and "k \<notin> set drop_columns"
      and "k \<noteq> ''LID''" and "k \<noteq> ''Constituent LookupID''" for i k
  proof -
    have "map_of (rows ?d1 ! i) k = map_of (rows d ! i) k"
      using that drows by (simp add: lookup_rename)
    also have "\<dots> = map_of (rows df ! i) k"
      using that drows by (simp add: map_of_drop_row)
    finally show ?thesis .
  qed
  have li: "map_of (rows ?d1 ! i) isr_recognition = map_of (rows df ! i) isr_recognition"
    if "i < length (rows df)" for i
    using look [OF that key_labels_kept(3) recognition_not_key(1,2)] .
  have lu: "map_of (rows ?d1 ! i) um_recognition = map_of (rows df ! i) um_recognition"
    if "i < length (rows df)" for i
    using look [OF that key_labels_kept(4) recognition_not_key(3,4)] .
  note core = derive_columns_donor [OF der]
  from core have len: "length (rows out) = length (rows df)" using n1 by simp
  have "\<exists>isr. map_of (rows df ! i) isr_recognition = Some isr
         \<and> (if \<not> isna isr
            then map_of (rows out ! i) ''donor_status'' = Some (Str ''ISR Donor'')
            else \<exists>um. map_of (rows df ! i) um_recognition = Some um
                 \<and> map_of (rows out ! i) ''donor_status''
                     = Some (Str (if \<not> isna um then ''UM Donor'' else ''Non Donor'')))"
    if i: "i < length (rows df)" for i
  proof -
    from i n1 have "i < length (rows ?d1)" by simp
    with core have "\<exists>isr. map_of (rows ?d1 ! i) isr_recognition = Some isr
         \<and> (if \<not> isna isr
            then map_of (rows out ! i) ''donor_status'' = Some (Str ''ISR Donor'')
            else \<exists>um. map_of (rows ?d1 ! i) um_recognition = Some um
                 \<and> map_of (rows out ! i) ''donor_status''
                     = Some (Str (if \<not> isna um then ''UM Donor'' else ''Non Donor'')))"
      by blast
    then show ?thesis unfolding li [OF i] lu [OF i] .
  qed
  with len show ?thesis by blast
qed

theorem donor_status_rule_witness:
  "(\<exists>out. snd (clean_and_prepare_data str_cell Inr example_frame) = Inr out
      \<and> map_of (rows out ! 0) ''donor_status'' = Some (Str ''ISR Donor'')
      \<and> map_of (rows out ! 1) ''donor_status'' = Some (Str ''UM Donor'')
      \<and> map_of (rows out ! 2) ''donor_status'' = Some (Str ''Non Donor''))
   \<and> ''Constituent LookupID'' \<in> set (columns example_frame)"
proof -
  from example_run obtain out
    where run: "snd (clean_and_prepare_data str_cell Inr example_frame) = Inr out" ..
  have key: "''Constituent LookupID'' \<in> set (columns example_frame)
             \<or> ''LID'' \<in> set (columns example_frame)"
    by (simp add: example_frame_def core_columns_def)
  have n: "length (rows example_frame) = 3"
    by (simp add: example_frame_def example_rows_def)
  have cells: "map_of (example_rows ! 0) isr_recognition = Some (Str ''$1,234.50'')"
    "map_of (example_rows ! 1) isr_recognition = Some NoneV"
    "map_of (example_rows ! 2) isr_recognition = Some NoneV"
    "map_of (example_rows ! 1) um_recognition = Some (Str ''$250.00'')"
    "map_of (example_rows ! 2) um_recognition = Some NoneV"
    by (simp_all add: example_rows_def core_columns_def isr_recognition_def um_recognition_def)
  have isr: "map_of (rows example_frame ! 0) isr_recognition = Some (Str ''$1,234.50'')"
    "map_of (rows example_frame ! 1) isr_recognition = Some NoneV"
    "map_of (rows example_frame ! 2) isr_recognition = Some NoneV"
    using cells(1,2,3) by (simp_all add: example_lookup key_labels_kept)
  have um: "map_of (rows example_frame ! 1) um_recognition = Some (Str ''$250.00'')"
    "map_of (rows example_frame ! 2) um_recognition = Some NoneV"
    using cells(4,5) by (simp_all add: example_lookup key_labels_kept)
  note rule = donor_status_rule [OF run key]
  from rule n isr(1) have r0: "map_of (rows out ! 0) ''donor_status'' = Some (Str ''ISR Donor'')"
    by (auto dest!: spec [of _ 0])
  from rule n isr(2) um(1) have r1: "map_of (rows out ! 1) ''donor_status'' = Some (Str ''UM Donor'')"
    by (auto dest!: spec [of _ 1])
  from rule n isr(3) um(2) have r2: "map_of (rows out ! 2) ''donor_status'' = Some (Str ''Non Donor'')"
    by (auto dest!: spec [of _ 2])
  from run r0 r1 r2 show ?thesis
    by (simp add: example_frame_def core_columns_def)
qed

text \<open>
  C7, as the specification states it, fails: a table without the columns of the removal
  list, which the normalizer only removes, is not tolerated. The removal raises
  \<open>KeyError\<close> and the normalizer returns no table.
\<close>

theorem removal_not_tolerant:
  "snd (clean_and_prepare_data str_cell Inr core_frame) = Inl (KeyError drop_columns)"
proof -
  have "filter (\<lambda>l. l \<notin> set (columns core_frame)) drop_columns = drop_columns"
    using core_disjoint by (intro filter_True) (auto simp: core_frame_def)
  moreover have "\<not> set drop_columns \<subseteq> set (columns core_frame)"
    using core_disjoint by (auto simp: core_frame_def drop_columns_def)
  ultimately show ?thesis
    using df_drop_absent [of drop_columns core_frame]
    by (simp add: clean_and_prepare_data_def)
qed

text \<open>
  C7, amended. If a column of the removal list is absent from the input, the removal
  raises \<open>KeyError\<close> with the absent labels, right after the first message is logged;
  \<open>clean_and_prepare_data\<close> returns no table, and since nothing catches the exception
  the run ends there.
\<close>

theorem missing_removal_column_aborts:
  assumes "\<not> set drop_columns \<subseteq> set (columns df)"
  shows "clean_and_prepare_data fmt to_int df =
           ([(INFO, ''Starting cleaning and preparing data.'')],
            Inl (KeyError (filter (\<lambda>l. l \<notin> set (columns df)) drop_columns)))"
  using df_drop_absent [OF assms] by (simp add: clean_and_prepare_data_def)

theorem missing_removal_column_aborts_witness:
  "\<not> set drop_columns \<subseteq> set (columns \<lparr>columns = [''Other Country.1'', ''Constituent LookupID''], rows = []\<rparr>)
   \<and> clean_and_prepare_data str_cell Inr
        \<lparr>columns = [''Other Country.1'', ''Constituent LookupID''], rows = []\<rparr>
       = ([(INFO, ''Starting cleaning and preparing data.'')], Inl (KeyError (tl drop_columns)))"
proof -
  let ?df = "\<lparr>columns = [''Other Country.1'', ''Constituent LookupID''], rows = []\<rparr>"
  have h: "\<not> set drop_columns \<subseteq> set (columns ?df)"
    by (simp add: drop_columns_def)
  have f: "filter (\<lambda>l. l \<notin> set (columns ?df)) drop_columns = tl drop_columns"
    by (simp add: drop_columns_def)
  from missing_removal_column_aborts [OF h, of str_cell Inr] h f show ?thesis by simp
qed

text \<open>
  C8. When the table that the removal leaves has neither a \<open>Constituent LookupID\<close> column
  nor a \<open>LID\<close> column, \<open>clean_and_prepare_data\<close> logs the error, raises nothing and
  returns that table as it is: no coordinate column, no \<open>Primary Address\<close>, no
  \<open>donor_status\<close>, no numeric monetary column is added and \<open>Age\<close> is not coerced.
\<close>

theorem missing_key_returns_early:
  assumes dr: "df_drop drop_columns df = Inr d"
    and wf: "wf_frame d"
    and no_id: "''Constituent LookupID'' \<notin> set (columns d)"
    and no_lid: "''LID'' \<notin> set (columns d)"
  shows "clean_and_prepare_data fmt to_int df =
           ([(INFO, ''Starting cleaning and preparing data.''),
             (ERROR, ''Column 'Constituent LookupID' not found in DataFrame.'')],
            Inr d)"
proof -
  have "df_rename [(''Constituent LookupID'', ''LID'')] d = d"
    using wf no_id by (intro df_rename_absent) simp_all
  with dr no_id no_lid show ?thesis
    by (simp add: clean_and_prepare_data_def)
qed

theorem missing_key_returns_early_witness:
  "df_drop drop_columns keyless_frame
     = Inr \<lparr>columns = tl core_columns, rows = map tl example_rows\<rparr>
   \<and> wf_frame \<lparr>columns = tl core_columns, rows = map tl example_rows\<rparr>
   \<and> ''Constituent LookupID'' \<notin> set (tl core_columns)
   \<and> ''LID'' \<notin> set (tl core_columns)
   \<and> clean_and_prepare_data str_cell Inr keyless_frame =
         ([(INFO, ''Starting cleaning and preparing data.''),
           (ERROR, ''Column 'Constituent LookupID' not found in DataFrame.'')],
          Inr \<lparr>columns = tl core_columns, rows = map tl example_rows\<rparr>)"
proof -
  let ?d = "\<lparr>columns = tl core_columns, rows = map tl example_rows\<rparr>"
  have cs: "set (tl core_columns) \<inter> set drop_columns = {}"
    using core_disjoint by (auto dest: list.set_sel(2) simp: core_columns_def)
  have rs: "\<forall>r\<in>set (map tl example_rows). fst ` set r \<subseteq> set (tl core_columns)"
    by (simp add: example_rows_def core_columns_def)
  have dr: "df_drop drop_columns keyless_frame = Inr ?d"
    using drop_raw_export [OF cs rs] by (simp add: keyless_frame_def comp_def)
  have wf: "wf_frame ?d"
    by (simp add: wf_frame_def example_rows_def core_columns_def)
  have k1: "''Constituent LookupID'' \<notin> set (columns ?d)"
    by (simp add: core_columns_def isr_recognition_def um_recognition_def)
  have k2: "''LID'' \<notin> set (columns ?d)"
    by (simp add: core_columns_def isr_recognition_def um_recognition_def)
  from missing_key_returns_early [OF dr wf k1 k2, of str_cell Inr] dr wf k1 k2
  show ?thesis by simp
qed

section \<open>The affiliation expander: results\<close>

text \<open>
  C4. When the expander runs on a table that has the affiliation column, the tokens it
  returns are exactly those of the rows' parsed sets taken together; the columns of the
  output are those of the input, \<open>Affiliation List\<close>, and one column labelled with the
  prefix and the token for each of these tokens, the same for every row; and in every row
  the cell of the column of token \<open>t\<close> is the truth value of \<open>t\<close> being in the parsed
  set of that row.
\<close>

theorem affiliation_columns_match_tokens:
  assumes run: "snd (create_affiliation_columns df) = Inr (out, all_affiliations)"
    and col: "''Constituent Affiliation'' \<in> set (columns df)"
  shows "length (rows out) = length (rows df)
    \<and> (\<forall>i<length (rows df). \<exists>cell.
          map_of (rows df ! i) ''Constituent Affiliation'' = Some cell
          \<and> token_set cell \<subseteq> set all_affiliations
          \<and> (\<forall>t\<in>set all_affiliations.
                map_of (rows out ! i) (affiliation_label t) = Some (BoolV (t \<in> token_set cell))))
    \<and> (\<forall>t\<in>set all_affiliations. \<exists>i<length (rows df). \<exists>cell.
          map_of (rows df ! i) ''Constituent Affiliation'' = Some cell \<and> t \<in> token_set cell)
    \<and> set (columns out)
        = set (columns df) \<union> {''Affiliation List''} \<union> affiliation_label ` set all_affiliations"
proof -
  let ?n = "length (rows df)"
  let ?CA = "''Constituent Affiliation''"
  from run col obtain raw parsed lists tokens where
    e1: "get_column df ?CA = Inr raw"
    and e2: "map_err clean_affiliations raw = Inr parsed"
    and e3: "get_column (df_set_column ''Affiliation List'' (map ListV parsed) df)
               ''Affiliation List'' = Inr lists"
    and e4: "map_err elements lists = Inr tokens"
    and e5: "add_affiliation_columns (remdups (concat tokens))
               (df_set_column ''Affiliation List'' (map ListV parsed) df) = Inr out"
    and e6: "all_affiliations = remdups (concat tokens)"
    by (auto simp: create_affiliation_columns_def Let_def bind_Inr_iff)
  let ?df1 = "df_set_column ''Affiliation List'' (map ListV parsed) df"
  have lr: "length raw = ?n" using get_column_Inr [OF e1] by simp
  have lp: "length parsed = ?n" using map_err_Inr [OF e2] lr by simp
  have n1: "length (rows ?df1) = ?n" using lp by (simp add: rows_set_column_length)
  have look1: "map_of (rows ?df1 ! i) k
                 = (if k = ''Affiliation List'' then Some (ListV (parsed ! i))
                    else map_of (rows df ! i) k)"
    if "i < ?n" for i k
    using that lp by (simp add: lookup_set_column)
  have ll: "length lists = ?n" using get_column_Inr [OF e3] n1 by simp
  have lists: "lists ! i = ListV (parsed ! i)" if "i < ?n" for i
  proof -
    have "map_of (rows ?df1 ! i) ''Affiliation List'' = Some (lists ! i)"
      using get_column_Inr [OF e3] n1 that by simp
    moreover have "map_of (rows ?df1 ! i) ''Affiliation List'' = Some (ListV (parsed ! i))"
      using look1 [OF that, of "''Affiliation List''"] by simp
    ultimately show ?thesis by simp
  qed
  have lt: "length tokens = ?n" using map_err_Inr [OF e4] ll by simp
  have "tokens ! i = parsed ! i" if "i < ?n" for i
  proof -
    have "elements (lists ! i) = Inr (tokens ! i)"
      using map_err_Inr [OF e4] ll that by simp
    then show ?thesis unfolding lists [OF that] by simp
  qed
  then have tp: "tokens = parsed"
    using lt lp by (intro nth_equalityI') simp_all
  have cellp: "map_of (rows df ! i) ?CA = Some (raw ! i) \<and> set (parsed ! i) = token_set (raw ! i)"
    if i: "i < ?n" for i
  proof -
    have "clean_affiliations (raw ! i) = Inr (parsed ! i)"
      using map_err_Inr [OF e2] lr i by simp
    then have "set (parsed ! i) = token_set (raw ! i)" by (rule clean_affiliations_tokens)
    moreover have "map_of (rows df ! i) ?CA = Some (raw ! i)"
      using get_column_Inr [OF e1] i by simp
    ultimately show ?thesis by simp
  qed
  have alls: "set all_affiliations = (\<Union>i<?n. set (parsed ! i))"
  proof -
    have "set all_affiliations = (\<Union>p\<in>set parsed. set p)" by (simp add: e6 tp)
    also have "\<dots> = (\<Union>i<?n. set (parsed ! i))"
    proof -
      have "set parsed = (\<lambda>i. parsed ! i) ` {..<?n}"
        using lp by (simp add: set_conv_nth image_def lessThan_def) blast
      then show ?thesis by simp
    qed
    finally show ?thesis .
  qed
  have al: "\<forall>i<length (rows ?df1).
              map_of (rows ?df1 ! i) ''Affiliation List'' = Some (ListV (parsed ! i))"
  proof (intro allI impI)
    fix i assume "i < length (rows ?df1)"
    with n1 have "i < ?n" by simp
    from look1 [OF this, of "''Affiliation List''"]
    show "map_of (rows ?df1 ! i) ''Affiliation List'' = Some (ListV (parsed ! i))" by simp
  qed
  have lp1: "length parsed = length (rows ?df1)" using lp n1 by simp
  have e5': "add_affiliation_columns all_affiliations ?df1 = Inr out" using e5 e6 by simp
  have dis: "distinct all_affiliations" by (simp add: e6)
  note res = add_affiliation_columns_result [OF e5' dis lp1 al]
  have len: "length (rows out) = ?n" using res n1 by simp
  have cols: "set (columns out)
        = set (columns df) \<union> {''Affiliation List''} \<union> affiliation_label ` set all_affiliations"
    using res by (auto simp: columns_set_column)
  have rowp: "\<exists>cell. map_of (rows df ! i) ?CA = Some cell
          \<and> token_set cell \<subseteq> set all_affiliations
          \<and> (\<forall>t\<in>set all_affiliations.
                map_of (rows out ! i) (affiliation_label t) = Some (BoolV (t \<in> token_set cell)))"
    if i: "i < ?n" for i
  proof -
    from i n1 have "i < length (rows ?df1)" by simp
    with res have "\<forall>t\<in>set all_affiliations.
        map_of (rows out ! i) (affiliation_label t) = Some (BoolV (t \<in> set (parsed ! i)))"
      by blast
    moreover have "set (parsed ! i) \<subseteq> set all_affiliations" using alls i by blast
    ultimately show ?thesis using cellp [OF i] by auto
  qed
  have orig: "\<exists>i<?n. \<exists>cell. map_of (rows df ! i) ?CA = Some cell \<and> t \<in> token_set cell"
    if "t \<in> set all_affiliations" for t
  proof -
    from that alls obtain i where "i < ?n" and "t \<in> set (parsed ! i)" by auto
    with cellp [of i] show ?thesis by auto
  qed
  from len rowp orig cols show ?thesis by blast
qed

theorem affiliation_columns_match_tokens_witness:
  "\<exists>out. snd (create_affiliation_columns affiliation_frame) = Inr (out, [''A'', '' B'', ''B''])
      \<and> ''Constituent Affiliation'' \<in> set (columns affiliation_frame)
      \<and> length (rows out) = 3
      \<and> map_of (rows out ! 0) (affiliation_label ''B'') = Some (BoolV False)
      \<and> map_of (rows out ! 1) (affiliation_label ''B'') = Some (BoolV True)
      \<and> map_of (rows out ! 2) (affiliation_label ''B'') = Some (BoolV False)
      \<and> set (columns out) = {''LID'', ''Constituent Affiliation'', ''Affiliation List'',
            ''Affiliation: A'', ''Affiliation:  B'', ''Affiliation: B''}"
proof -
  from affiliation_example obtain out where
    run: "snd (create_affiliation_columns affiliation_frame) = Inr (out, [''A'', '' B'', ''B''])"
    by blast
  have col: "''Constituent Affiliation'' \<in> set (columns affiliation_frame)"
    by (simp add: affiliation_frame_def)
  have n: "length (rows affiliation_frame) = 3" by (simp add: affiliation_frame_def)
  have cells: "map_of (rows affiliation_frame ! 0) ''Constituent Affiliation'' = Some (Str ''A, B'')"
    "map_of (rows affiliation_frame ! 1) ''Constituent Affiliation'' = Some (Str ''B'')"
    "map_of (rows affiliation_frame ! 2) ''Constituent Affiliation'' = Some NoneV"
    by (simp_all add: affiliation_frame_def)
  have toks: "''B'' \<notin> token_set (Str ''A, B'')" "''B'' \<in> token_set (Str ''B'')"
    "''B'' \<notin> token_set NoneV"
    by (simp_all add: token_set_def replace_char_def newline_def)
  note m = affiliation_columns_match_tokens [OF run col]
  from m n have len: "length (rows out) = 3" by simp
  from m n cells(1) toks(1)
  have r0: "map_of (rows out ! 0) (affiliation_label ''B'') = Some (BoolV False)"
    by (auto dest!: spec [of _ 0])
  from m n cells(2) toks(2)
  have r1: "map_of (rows out ! 1) (affiliation_label ''B'') = Some (BoolV True)"
    by (auto dest!: spec [of _ 1])
  from m n cells(3) toks(3)
  have r2: "map_of (rows out ! 2) (affiliation_label ''B'') = Some (BoolV False)"
    by (auto dest!: spec [of _ 2])
  from m have cs: "set (columns out) = {''LID'', ''Constituent Affiliation'', ''Affiliation List'',
            ''Affiliation: A'', ''Affiliation:  B'', ''Affiliation: B''}"
    by (auto simp: affiliation_frame_def affiliation_label_def)
  from run col len r0 r1 r2 cs show ?thesis by blast
qed

text \<open>
  C9. The parse trims nothing. The tokens of a field contain neither separator, and
  joined by commas they give back the field with its newlines turned into commas,
  character by character: every token is the text between two separators as it stands.
  So \<open>"A, B"\<close> has the token \<open>" B"\<close> with its leading space, and next to a row with
  \<open>"B"\<close> the two tokens get two columns with different cells.
\<close>

theorem affiliation_tokens_not_trimmed:
  "(\<exists>ws. clean_affiliations (Str s) = Inr (remdups ws)
      \<and> join CHR '','' ws = map (\<lambda>c. if c = newline then CHR '','' else c) s
      \<and> (\<forall>w\<in>set ws. CHR '','' \<notin> set w \<and> newline \<notin> set w))
   \<and> clean_affiliations (Str ''A, B'') = Inr [''A'', '' B'']
   \<and> affiliation_label '' B'' \<noteq> affiliation_label ''B''
   \<and> (\<exists>out. snd (create_affiliation_columns affiliation_frame) = Inr (out, [''A'', '' B'', ''B''])
        \<and> map (\<lambda>r. (map_of r ''Affiliation:  B'', map_of r ''Affiliation: B'')) (rows out)
            = [(Some (BoolV True), Some (BoolV False)),
               (Some (BoolV False), Some (BoolV True)),
               (Some (BoolV False), Some (BoolV False))])"
proof -
  let ?r = "replace_char newline CHR '','' s"
  let ?ws = "split_on CHR '','' ?r"
  have nl: "newline \<notin> set ?r" by (auto simp: replace_char_def newline_def)
  have a: "clean_affiliations (Str s) = Inr (remdups ?ws)" by (rule clean_affiliations_Str)
  have b: "join CHR '','' ?ws = map (\<lambda>c. if c = newline then CHR '','' else c) s"
    by (simp add: join_split_on replace_char_def)
  have c: "\<forall>w\<in>set ?ws. CHR '','' \<notin> set w \<and> newline \<notin> set w"
    using split_on_no_sep [of _ "CHR '',''" ?r] split_on_subset [of _ "CHR '',''" ?r] nl
    by blast
  have d: "clean_affiliations (Str ''A, B'') = Inr [''A'', '' B'']"
    by (simp add: clean_affiliations_Str replace_char_def newline_def)
  have e: "affiliation_label '' B'' \<noteq> affiliation_label ''B''"
    by (simp add: affiliation_label_def)
  have f: "\<exists>out. snd (create_affiliation_columns affiliation_frame) = Inr (out, [''A'', '' B'', ''B''])
        \<and> map (\<lambda>r. (map_of r ''Affiliation:  B'', map_of r ''Affiliation: B'')) (rows out)
            = [(Some (BoolV True), Some (BoolV False)),
               (Some (BoolV False), Some (BoolV True)),
               (Some (BoolV False), Some (BoolV False))]"
    unfolding affiliation_example by simp
  from a b c d e f show ?thesis by blast
qed

theorem affiliation_tokens_not_trimmed_witness:
  "\<exists>ws. clean_affiliations (Str ''A, B'') = Inr (remdups ws)
      \<and> join CHR '','' ws = ''A, B''
      \<and> (\<forall>w\<in>set ws. CHR '','' \<notin> set w \<and> newline \<notin> set w)"
proof -
  have m: "map (\<lambda>c. if c = newline then CHR '','' else c) ''A, B'' = ''A, B''"
    by (simp add: newline_def)
  from affiliation_tokens_not_trimmed [of "''A, B''"] show ?thesis
    unfolding m by blast
qed

section \<open>Candidates for geocoding: results\<close>




section \<open>De-duplication: results\<close>



section \<open>The missing-value filler: results\<close>



text \<open>
  C10. When the filler returns, a cell that was not missing holds the same value
  afterwards, the table keeps its columns and its number of rows, and a cell of the row
  that differs from before was missing before.
\<close>

theorem fill_keeps_non_null:
  assumes run: "fill_missing_values tf = Inr out"
    and i: "i < length (rows (frame tf))"
    and v: "map_of (rows (frame tf) ! i) c = Some v"
    and nn: "\<not> isna v"
  shows "map_of (rows (frame out) ! i) c = Some v
    \<and> length (rows (frame out)) = length (rows (frame tf))
    \<and> columns (frame out) = columns (frame tf)
    \<and> (\<forall>k. map_of (rows (frame out) ! i) k \<noteq> map_of (rows (frame tf) ! i) k
           \<longrightarrow> (\<exists>u. map_of (rows (frame tf) ! i) k = Some u \<and> isna u))"
proof -
  from run have fc: "fill_columns (columns (frame tf)) tf = Inr out"
    by (simp add: fill_missing_values_def)
  note res = fill_columns_result [OF fc]
  have look: "map_of (rows (frame out) ! i) k =
            (if k \<in> set (columns (frame tf))
             then map_option (\<lambda>v. if isna v then fill_value_for (dtype tf k) else v)
                    (map_of (rows (frame tf) ! i) k)
             else map_of (rows (frame tf) ! i) k)" for k
    using res i by simp
  have same: "map_of (rows (frame out) ! i) c = Some v"
    unfolding look [of c] using v nn by simp
  have only: "\<exists>u. map_of (rows (frame tf) ! i) k = Some u \<and> isna u"
    if "map_of (rows (frame out) ! i) k \<noteq> map_of (rows (frame tf) ! i) k" for k
    using that unfolding look [of k]
    by (cases "map_of (rows (frame tf) ! i) k") (auto split: if_splits)
  from same res only show ?thesis by blast
qed

theorem fill_keeps_non_null_witness:
  "\<exists>out. fill_missing_values typed_example = Inr out
     \<and> 1 < length (rows (frame typed_example))
     \<and> map_of (rows (frame typed_example) ! 1) ''Segment'' = Some (Str ''Major'')
     \<and> \<not> isna (Str ''Major'')
     \<and> map_of (rows (frame out) ! 1) ''Segment'' = Some (Str ''Major'')"
proof -
  from fill_missing_values_total [OF typed_example_wf] obtain out where
    run: "fill_missing_values typed_example = Inr out" ..
  have i: "1 < length (rows (frame typed_example))" by (simp add: typed_example_def)
  have v: "map_of (rows (frame typed_example) ! 1) ''Segment'' = Some (Str ''Major'')"
    by (simp add: typed_example_def)
  have nn: "\<not> isna (Str ''Major'')" by simp
  from fill_keeps_non_null [OF run i v nn] run i v nn show ?thesis by blast
qed

end
